theory Spec2Isabelle
  imports Complex_Main "HOL-Library.Word"
begin

section \<open>Codec (crypto/utils.ts)\<close>

text \<open>
  A \<open>Uint8Array\<close> is a list of bytes. JavaScript strings that carry base64 text are
  lists of characters.
\<close>

type_synonym byte = "8 word"
type_synonym bytes = "byte list"

subsection \<open>The platform's base64 codec\<close>

text \<open>
  \<open>Buffer.from(buffer).toString('base64')\<close> and \<open>Buffer.from(s, 'base64')\<close> belong to
  the Node.js runtime, not to the repository. They are written out here after RFC 4648,
  section 4, with the decoder as lenient as Node's: it accepts the URL-safe letters
  \<open>-\<close> and \<open>_\<close> as well, skips any character outside the alphabet, stops at the first
  \<open>=\<close>, and turns a trailing group of two or three letters into one or two bytes.
\<close>

definition b64chars :: string where
  "b64chars = ''ABCDEFGHIJKLMNOPQRSTUVWXYZabcdefghijklmnopqrstuvwxyz0123456789+/''"

definition b64char :: "nat \<Rightarrow> char" where
  "b64char i = b64chars ! i"

fun sextets :: "bytes \<Rightarrow> nat list" where
  "sextets [] = []"
| "sextets [a] = (let n = unat a in [n div 4, (n mod 4) * 16])"
| "sextets [a, b] =
     (let n = unat a * 256 + unat b in [n div 1024, n div 16 mod 64, (n mod 16) * 4])"
| "sextets (a # b # c # rest) =
     (let n = unat a * 65536 + unat b * 256 + unat c
      in [n div 262144, n div 4096 mod 64, n div 64 mod 64, n mod 64] @ sextets rest)"

definition buffer_toString_base64 :: "bytes \<Rightarrow> string" where
  "buffer_toString_base64 buf =
     map b64char (sextets buf) @ replicate ((3 - length buf mod 3) mod 3) CHR ''=''"

fun index_of :: "char \<Rightarrow> string \<Rightarrow> nat option" where
  "index_of c [] = None"
| "index_of c (x # xs) =
     (if c = x then Some 0 else map_option Suc (index_of c xs))"

definition unbase64 :: "char \<Rightarrow> nat option" where
  "unbase64 c =
     (if c = CHR ''-'' then Some 62
      else if c = CHR ''_'' then Some 63
      else index_of c b64chars)"

fun unsextets :: "nat list \<Rightarrow> bytes" where
  "unsextets (s1 # s2 # s3 # s4 # rest) =
     (let n = ((s1 * 64 + s2) * 64 + s3) * 64 + s4
      in [of_nat (n div 65536), of_nat (n div 256 mod 256), of_nat (n mod 256)]
         @ unsextets rest)"
| "unsextets [s1, s2, s3] =
     (let n = (s1 * 64 + s2) * 64 + s3
      in [of_nat (n div 1024), of_nat (n div 4 mod 256)])"
| "unsextets [s1, s2] = (let n = s1 * 64 + s2 in [of_nat (n div 16)])"
| "unsextets _ = []"

definition buffer_from_base64 :: "string \<Rightarrow> bytes" where
  "buffer_from_base64 s =
     unsextets (List.map_filter unbase64 (takeWhile (\<lambda>c. c \<noteq> CHR ''='') s))"

subsection \<open>toBase64Url, fromBase64Url, concatBuffers\<close>

text \<open>\<open>s.replace(/x/g, 'y')\<close> for single characters \<open>x\<close> and \<open>y\<close>.\<close>

definition replace_char :: "char \<Rightarrow> char \<Rightarrow> string \<Rightarrow> string" where
  "replace_char x y s = map (\<lambda>c. if c = x then y else c) s"

text \<open>\<open>s.replace(/x/g, '')\<close>.\<close>

definition remove_char :: "char \<Rightarrow> string \<Rightarrow> string" where
  "remove_char x s = filter (\<lambda>c. c \<noteq> x) s"

definition toBase64Url :: "bytes \<Rightarrow> string" where
  "toBase64Url buffer =
     (let base64 = buffer_toString_base64 buffer
      in remove_char CHR ''='' (replace_char CHR ''/'' CHR ''_''
           (replace_char CHR ''+'' CHR ''-'' base64)))"

definition fromBase64Url :: "string \<Rightarrow> bytes" where
  "fromBase64Url base64url =
     (let base64 = replace_char CHR ''_'' CHR ''/'' (replace_char CHR ''-'' CHR ''+'' base64url);
          pad = length base64 mod 4;
          base64 = (if pad \<noteq> 0 then base64 @ replicate (4 - pad) CHR ''='' else base64)
      in buffer_from_base64 base64)"

text \<open>The letter that \<open>toBase64Url\<close> writes for a six-bit value.\<close>

definition urlchar :: "nat \<Rightarrow> char" where
  "urlchar i =
     (let c = b64char i
      in if c = CHR ''+'' then CHR ''-'' else if c = CHR ''/'' then CHR ''_'' else c)"

text \<open>
  \<open>concatBuffers\<close> allocates a zeroed array of the total length and copies each buffer
  in at a running offset. \<open>result.set(buf, offset)\<close> raises a RangeError when the
  buffer does not fit; that is the value \<open>None\<close>.
\<close>

definition typed_array_set :: "bytes \<Rightarrow> bytes \<Rightarrow> nat \<Rightarrow> bytes option" where
  "typed_array_set result buf offset =
     (if offset + length buf \<le> length result
      then Some (take offset result @ buf @ drop (offset + length buf) result)
      else None)"

fun concat_loop :: "bytes list \<Rightarrow> nat \<Rightarrow> bytes \<Rightarrow> bytes option" where
  "concat_loop [] offset result = Some result"
| "concat_loop (buf # bufs) offset result =
     (case typed_array_set result buf offset of
        None \<Rightarrow> None
      | Some result' \<Rightarrow> concat_loop bufs (offset + length buf) result')"

definition concatBuffers :: "bytes list \<Rightarrow> bytes option" where
  "concatBuffers buffers =
     (let totalLength = foldl (\<lambda>sum buf. sum + length buf) 0 buffers;
          result = replicate totalLength 0
      in concat_loop buffers 0 result)"

text \<open>
  \<open>ensureOwnBuffer\<close> copies a buffer that is a view into a larger one and returns any
  other buffer as it is. Buffers are modelled by their contents, which both branches keep.
\<close>

definition ensureOwnBuffer :: "bytes \<Rightarrow> bytes" where
  "ensureOwnBuffer buffer = buffer"

section \<open>Envelope verification and decryption (crypto/)\<close>

subsection \<open>Errors, primitives and the log of primitive calls\<close>

text \<open>
  The error classes of \<open>types/index.ts\<close>, together with the errors of the runtime that
  the code can meet: a \<open>TypeError\<close> (a wire field that is not a string), a \<open>RangeError\<close>
  (a typed-array write out of range) and \<open>PrimitiveError\<close>, an exception raised inside
  a cryptographic primitive.
\<close>

datatype error =
    ApiError nat
  | NetworkError
  | TimeoutError
  | DecryptionError
  | SignatureVerificationError
  | InboxNotFoundError
  | EmailNotFoundError
  | SSEError
  | StrategyError
  | TypeError
  | RangeError
  | PrimitiveError

text \<open>
  The cryptographic primitives come from \<open>@noble/post-quantum\<close> and WebCrypto. They are
  parameters of the model. A primitive that can raise returns an option, \<open>None\<close> for
  the exception. \<open>text_encode\<close> is \<open>new TextEncoder().encode\<close>.
\<close>

record prims =
  text_encode :: "string \<Rightarrow> bytes"
  ml_dsa65_verify :: "bytes \<Rightarrow> bytes \<Rightarrow> bytes \<Rightarrow> bool option"
  ml_kem768_decapsulate :: "bytes \<Rightarrow> bytes \<Rightarrow> bytes option"
  subtle_digest_sha256 :: "bytes \<Rightarrow> bytes"
  subtle_hkdf_sha512 :: "bytes \<Rightarrow> bytes \<Rightarrow> bytes \<Rightarrow> nat \<Rightarrow> bytes"
  subtle_aes_gcm_decrypt :: "bytes \<Rightarrow> bytes \<Rightarrow> bytes \<Rightarrow> bytes \<Rightarrow> bytes option"

text \<open>Every call of a primitive is written to a log, in the order of the calls.\<close>

datatype call =
    Verify bytes bytes bytes
  | Decapsulate bytes bytes
  | Digest bytes
  | DeriveBits bytes bytes bytes nat
  | AesGcmDecrypt bytes bytes bytes bytes

fun is_Decapsulate :: "call \<Rightarrow> bool" where
  "is_Decapsulate (Decapsulate _ _) = True"
| "is_Decapsulate _ = False"

type_synonym 'a outcome = "(error + 'a) \<times> call list"

definition ret :: "'a \<Rightarrow> 'a outcome" where
  "ret x = (Inr x, [])"

definition throw :: "error \<Rightarrow> 'a outcome" where
  "throw e = (Inl e, [])"

text \<open>Sequencing: an exception skips the rest; the logs are appended.\<close>

definition seq :: "'a outcome \<Rightarrow> ('a \<Rightarrow> 'b outcome) \<Rightarrow> 'b outcome" where
  "seq m f =
     (case m of
        (Inl e, cs) \<Rightarrow> (Inl e, cs)
      | (Inr x, cs) \<Rightarrow> (case f x of (r, cs') \<Rightarrow> (r, cs @ cs')))"

text \<open>A logged call of a primitive that may raise.\<close>

definition invoke :: "call \<Rightarrow> 'a option \<Rightarrow> 'a outcome" where
  "invoke c r = ((case r of None \<Rightarrow> Inl PrimitiveError | Some x \<Rightarrow> Inr x), [c])"

subsection \<open>The envelope\<close>

text \<open>
  \<open>EncryptedData\<close>. The object is parsed JSON that nothing validates, so a byte field
  that is not a string at run time is \<open>None\<close>, and so is a missing \<open>algs\<close> object. The
  fields of \<open>algs\<close> carry the prefix \<open>alg_\<close>, since \<open>sig\<close> also names the signature.
\<close>

record Algs =
  alg_kem :: string
  alg_sig :: string
  alg_aead :: string
  alg_kdf :: string

record EncryptedData =
  v :: int
  ct_kem :: "string option"
  nonce :: "string option"
  aad :: "string option"
  ciphertext :: "string option"
  sig :: "string option"
  server_sig_pk :: "string option"
  algs :: "Algs option"

record Keypair =
  publicKey :: bytes
  secretKey :: bytes
  publicKeyB64 :: string

definition HKDF_CONTEXT :: string where
  "HKDF_CONTEXT = ''vaultsandbox:email:v1''"

text \<open>\<open>fromBase64Url\<close> on a wire field: \<open>undefined.replace\<close> raises a TypeError.\<close>

definition decode_field :: "string option \<Rightarrow> bytes outcome" where
  "decode_field f = (case f of None \<Rightarrow> throw TypeError | Some s \<Rightarrow> ret (fromBase64Url s))"

subsection \<open>crypto/signature.ts\<close>

definition buildAlgsCiphersuite :: "Algs \<Rightarrow> string" where
  "buildAlgsCiphersuite a =
     alg_kem a @ '':'' @ alg_sig a @ '':'' @ alg_aead a @ '':'' @ alg_kdf a"

text \<open>\<open>new Uint8Array([version])\<close> keeps the version modulo 256.\<close>

definition buildTranscript ::
  "prims \<Rightarrow> int \<Rightarrow> string \<Rightarrow> bytes \<Rightarrow> bytes \<Rightarrow> bytes \<Rightarrow> bytes \<Rightarrow> bytes \<Rightarrow> string \<Rightarrow> bytes option"
where
  "buildTranscript P version algsCiphersuite ctKem nonceBytes aadBytes ciphertextBytes
       serverSigPk context =
     (let versionBytes = [of_int version];
          algsBytes = text_encode P algsCiphersuite;
          contextBytes = text_encode P context
      in concatBuffers [versionBytes, algsBytes, contextBytes, ctKem, nonceBytes, aadBytes,
           ciphertextBytes, serverSigPk])"

text \<open>The \<open>try\<close> block of \<open>verifySignature\<close>.\<close>

definition verifySignature_try :: "prims \<Rightarrow> EncryptedData \<Rightarrow> bool outcome" where
  "verifySignature_try P encryptedData =
     seq (decode_field (sig encryptedData)) (\<lambda>signature.
     seq (decode_field (ct_kem encryptedData)) (\<lambda>ctKem.
     seq (decode_field (nonce encryptedData)) (\<lambda>nonceBytes.
     seq (decode_field (aad encryptedData)) (\<lambda>aadBytes.
     seq (decode_field (ciphertext encryptedData)) (\<lambda>ciphertextBytes.
     seq (decode_field (server_sig_pk encryptedData)) (\<lambda>serverSigPk.
     seq (case algs encryptedData of None \<Rightarrow> throw TypeError
          | Some a \<Rightarrow> ret (buildAlgsCiphersuite a)) (\<lambda>algsCiphersuite.
     seq (case buildTranscript P (v encryptedData) algsCiphersuite ctKem nonceBytes aadBytes
                 ciphertextBytes serverSigPk HKDF_CONTEXT of
            None \<Rightarrow> throw RangeError
          | Some t \<Rightarrow> ret t) (\<lambda>transcript.
     seq (invoke (Verify (ensureOwnBuffer signature) (ensureOwnBuffer transcript)
                    (ensureOwnBuffer serverSigPk))
            (ml_dsa65_verify P (ensureOwnBuffer signature) (ensureOwnBuffer transcript)
               (ensureOwnBuffer serverSigPk))) (\<lambda>isValid.
     if \<not> isValid then throw SignatureVerificationError else ret True)))))))))"

text \<open>
  The \<open>catch\<close> block: a \<open>SignatureVerificationError\<close> is thrown again, every other
  error is replaced by a new \<open>SignatureVerificationError\<close>.
\<close>

definition verifySignature :: "prims \<Rightarrow> EncryptedData \<Rightarrow> bool outcome" where
  "verifySignature P encryptedData =
     (case verifySignature_try P encryptedData of
        (Inl e, cs) \<Rightarrow>
          (if e = SignatureVerificationError then (Inl e, cs)
           else (Inl SignatureVerificationError, cs))
      | (Inr b, cs) \<Rightarrow> (Inr b, cs))"

subsection \<open>deriveKey (crypto/keypair.ts)\<close>

text \<open>
  \<open>new DataView(aadLength.buffer).setUint32(0, n, false)\<close> on a fresh array of four
  bytes: the number is reduced modulo \<open>2^32\<close> and written with the high byte first.
\<close>

definition setUint32_be :: "nat \<Rightarrow> bytes" where
  "setUint32_be n =
     (let w = (of_nat n :: 32 word)
      in [ucast (drop_bit 24 w), ucast (drop_bit 16 w), ucast (drop_bit 8 w), ucast w])"

text \<open>The number that a sequence of bytes denotes, high byte first.\<close>

definition be_value :: "bytes \<Rightarrow> nat" where
  "be_value bs = foldl (\<lambda>acc b. acc * 256 + unat b) 0 bs"

text \<open>
  Importing a raw key for HKDF accepts every length and calls no primitive of the record,
  so it leaves no trace in the model.
\<close>

definition deriveKey :: "prims \<Rightarrow> bytes \<Rightarrow> string \<Rightarrow> bytes \<Rightarrow> bytes \<Rightarrow> bytes outcome" where
  "deriveKey P ikm context aadBytes ctKem =
     (let contextBytes = text_encode P context
      in seq (invoke (Digest ctKem) (Some (subtle_digest_sha256 P ctKem))) (\<lambda>salt.
         let aadLength = setUint32_be (length aadBytes)
         in seq (case concatBuffers [contextBytes, aadLength, aadBytes] of
                   None \<Rightarrow> throw RangeError
                 | Some i \<Rightarrow> ret i) (\<lambda>info.
            let ikmClean = ensureOwnBuffer ikm;
                saltClean = ensureOwnBuffer salt;
                infoClean = ensureOwnBuffer info
            in seq (invoke (DeriveBits ikmClean saltClean infoClean 256)
                      (Some (subtle_hkdf_sha512 P ikmClean saltClean infoClean 256)))
                 (\<lambda>derivedBits. ret (ensureOwnBuffer derivedBits)))))"

subsection \<open>crypto/decrypt.ts\<close>

text \<open>
  \<open>crypto.subtle.importKey('raw', key, {name: 'AES-GCM'}, ...)\<close> rejects a key that is
  not 128, 192 or 256 bits long.
\<close>

definition importKey_aes_gcm :: "bytes \<Rightarrow> bytes outcome" where
  "importKey_aes_gcm key =
     (if length key = 16 \<or> length key = 24 \<or> length key = 32 then ret key
      else throw PrimitiveError)"

text \<open>The \<open>try\<close> block of \<open>decrypt\<close>.\<close>

definition decrypt_try :: "prims \<Rightarrow> EncryptedData \<Rightarrow> Keypair \<Rightarrow> bytes outcome" where
  "decrypt_try P encryptedData keypair =
     seq (verifySignature P encryptedData) (\<lambda>_.
     seq (decode_field (ct_kem encryptedData)) (\<lambda>ctKem.
     seq (decode_field (nonce encryptedData)) (\<lambda>nonceBytes.
     seq (decode_field (aad encryptedData)) (\<lambda>aadBytes.
     seq (decode_field (ciphertext encryptedData)) (\<lambda>ciphertextBytes.
     seq (invoke (Decapsulate ctKem (ensureOwnBuffer (secretKey keypair)))
            (ml_kem768_decapsulate P ctKem (ensureOwnBuffer (secretKey keypair))))
       (\<lambda>sharedSecret.
     seq (deriveKey P sharedSecret HKDF_CONTEXT aadBytes ctKem) (\<lambda>aesKey.
     let aesKeyClean = ensureOwnBuffer aesKey;
         nonceClean = ensureOwnBuffer nonceBytes;
         aadClean = ensureOwnBuffer aadBytes;
         ciphertextClean = ensureOwnBuffer ciphertextBytes
     in seq (importKey_aes_gcm aesKeyClean) (\<lambda>cryptoKey.
        seq (invoke (AesGcmDecrypt cryptoKey nonceClean aadClean ciphertextClean)
               (subtle_aes_gcm_decrypt P cryptoKey nonceClean aadClean ciphertextClean))
          (\<lambda>plaintext. ret plaintext)))))))))"

text \<open>
  The \<open>catch\<close> block: signature and decryption errors are thrown again, every other
  error becomes a \<open>DecryptionError\<close>.
\<close>

definition decrypt :: "prims \<Rightarrow> EncryptedData \<Rightarrow> Keypair \<Rightarrow> bytes outcome" where
  "decrypt P encryptedData keypair =
     (case decrypt_try P encryptedData keypair of
        (Inl e, cs) \<Rightarrow>
          (if e = SignatureVerificationError then (Inl e, cs)
           else if e = DecryptionError then (Inl e, cs)
           else (Inl DecryptionError, cs))
      | (Inr plaintext, cs) \<Rightarrow> (Inr plaintext, cs))"

section \<open>Polling strategy (class PollingStrategy, strategies/)\<close>

text \<open>
  JavaScript numbers that measure time are rationals here: the model has no rounding.
\<close>

record PollingConfig =
  cfg_initialInterval :: "rat option"
  cfg_maxBackoff :: "rat option"
  cfg_backoffMultiplier :: "rat option"
  cfg_jitterFactor :: "rat option"

record PollingStrategy =
  initialInterval :: rat
  maxBackoff :: rat
  backoffMultiplier :: rat
  jitterFactor :: rat

text \<open>\<open>x ?? d\<close>.\<close>

definition nullish :: "'a option \<Rightarrow> 'a \<Rightarrow> 'a" where
  "nullish x d = (case x of None \<Rightarrow> d | Some y \<Rightarrow> y)"

definition new_PollingStrategy :: "PollingConfig \<Rightarrow> PollingStrategy" where
  "new_PollingStrategy config =
     \<lparr> initialInterval = nullish (cfg_initialInterval config) 2000,
       maxBackoff = nullish (cfg_maxBackoff config) 30000,
       backoffMultiplier = nullish (cfg_backoffMultiplier config) (3 / 2),
       jitterFactor = nullish (cfg_jitterFactor config) (3 / 10) \<rparr>"

text \<open>
  \<open>WaitOptions\<close>. The fields \<open>timeout\<close> and \<open>pollInterval\<close> carry the prefix \<open>opt_\<close>,
  since the methods have local variables of the same names. The subject, sender and
  predicate filters are one predicate, \<open>accepts\<close>, which is
  \<open>matchesFilters(email, options)\<close>.
\<close>

record 'e WaitOptions =
  opt_timeout :: "rat option"
  opt_pollInterval :: "rat option"
  accepts :: "'e \<Rightarrow> bool"

definition findMatchingEmail :: "'e list \<Rightarrow> 'e WaitOptions \<Rightarrow> 'e option" where
  "findMatchingEmail emails options = find (accepts options) emails"

record SyncStatus =
  emailCount :: nat
  emailsHash :: string

text \<open>
  What the world outside answers during one turn of the loop: the time elapsed since
  \<open>startTime\<close> when the loop condition is tested, the outcome of \<open>getSyncStatus\<close>, the
  outcome of \<open>listEmails\<close> followed by \<open>decryptEmails\<close> (consulted only when the loop
  asks), the time elapsed when the remaining time is computed, and \<open>Math.random()\<close>.
\<close>

record 'e tick =
  elapsed_at_test :: rat
  sync :: "error + SyncStatus"
  listing :: "error + 'e list"
  elapsed_at_sleep :: rat
  random :: rat

datatype action = GetSyncStatus | ListEmails | Sleep rat

text \<open>
  The \<open>catch\<close> block of the loop: an error that carries \<open>statusCode\<close> 404 becomes
  \<open>InboxNotFoundError\<close>, any other error is thrown again. Only \<open>ApiError\<close> has a
  \<open>statusCode\<close>.
\<close>

fun polling_catch :: "error \<Rightarrow> error" where
  "polling_catch (ApiError statusCode) =
     (if statusCode = 404 then InboxNotFoundError else ApiError statusCode)"
| "polling_catch e = e"

datatype 'e step =
    Return 'e
  | Throw error
  | Break
  | Continue "string option" rat

text \<open>
  The lower half of the loop body, from the computation of the remaining time on.
  \<open>lastHash\<close> and \<open>currentBackoff\<close> are the values of the variables at that point.
\<close>

definition poll_sleep ::
  "PollingStrategy \<Rightarrow> rat \<Rightarrow> SyncStatus \<Rightarrow> string option \<Rightarrow> rat \<Rightarrow> 'e tick \<Rightarrow> action list
     \<Rightarrow> 'e step \<times> action list"
where
  "poll_sleep S timeout syncStatus lastHash currentBackoff t done =
     (let remainingTime = timeout - elapsed_at_sleep t
      in if remainingTime \<le> 0 then (Break, done)
         else
           let jitter = random t * jitterFactor S * currentBackoff;
               desiredWaitTime = min (currentBackoff + jitter) (maxBackoff S);
               waitTime = min desiredWaitTime remainingTime;
               currentBackoff' =
                 (if Some (emailsHash syncStatus) = lastHash
                  then min (currentBackoff * backoffMultiplier S) (maxBackoff S)
                  else currentBackoff)
           in (Continue lastHash currentBackoff', done @ [Sleep waitTime]))"

text \<open>One turn of the \<open>while\<close> loop of \<open>waitForEmail\<close>, after its condition held.\<close>

definition poll_iteration ::
  "PollingStrategy \<Rightarrow> 'e WaitOptions \<Rightarrow> rat \<Rightarrow> rat \<Rightarrow> string option \<Rightarrow> rat \<Rightarrow> 'e tick
     \<Rightarrow> 'e step \<times> action list"
where
  "poll_iteration S options timeout pollInterval lastHash currentBackoff t =
     (case sync t of
        Inl e \<Rightarrow> (Throw (polling_catch e), [GetSyncStatus])
      | Inr syncStatus \<Rightarrow>
          if lastHash = None \<or> Some (emailsHash syncStatus) \<noteq> lastHash then
            (if emailCount syncStatus > 0 then
               (case listing t of
                  Inl e \<Rightarrow> (Throw (polling_catch e), [GetSyncStatus, ListEmails])
                | Inr emails \<Rightarrow>
                    (case findMatchingEmail emails options of
                       Some matchingEmail \<Rightarrow> (Return matchingEmail, [GetSyncStatus, ListEmails])
                     | None \<Rightarrow>
                         poll_sleep S timeout syncStatus (Some (emailsHash syncStatus))
                           pollInterval t [GetSyncStatus, ListEmails]))
             else
               poll_sleep S timeout syncStatus (Some (emailsHash syncStatus)) pollInterval t
                 [GetSyncStatus])
          else poll_sleep S timeout syncStatus lastHash currentBackoff t [GetSyncStatus])"

text \<open>
  The loop. Each turn consumes one \<open>tick\<close>; when the list of ticks ends while the loop
  is still running, the result is \<open>None\<close>.
\<close>

fun poll_loop ::
  "PollingStrategy \<Rightarrow> 'e WaitOptions \<Rightarrow> rat \<Rightarrow> rat \<Rightarrow> string option \<Rightarrow> rat \<Rightarrow> 'e tick list
     \<Rightarrow> (error + 'e) option \<times> action list"
where
  "poll_loop S options timeout pollInterval lastHash currentBackoff [] = (None, [])"
| "poll_loop S options timeout pollInterval lastHash currentBackoff (t # ts) =
     (if elapsed_at_test t < timeout then
        (case poll_iteration S options timeout pollInterval lastHash currentBackoff t of
           (Return email, acts) \<Rightarrow> (Some (Inr email), acts)
         | (Throw e, acts) \<Rightarrow> (Some (Inl e), acts)
         | (Break, acts) \<Rightarrow> (Some (Inl TimeoutError), acts)
         | (Continue lastHash' currentBackoff', acts) \<Rightarrow>
             (case poll_loop S options timeout pollInterval lastHash' currentBackoff' ts of
                (r, acts') \<Rightarrow> (r, acts @ acts')))
      else (Some (Inl TimeoutError), []))"

definition polling_waitForEmail ::
  "PollingStrategy \<Rightarrow> 'e WaitOptions \<Rightarrow> 'e tick list \<Rightarrow> (error + 'e) option \<times> action list"
where
  "polling_waitForEmail S options ticks =
     (let timeout = nullish (opt_timeout options) 30000;
          pollInterval = nullish (opt_pollInterval options) (initialInterval S)
      in poll_loop S options timeout pollInterval None pollInterval ticks)"




subsection \<open>The transport's error conversion (http/api-client.ts)\<close>

text \<open>
  \<open>handleError\<close> turns a failed request into an error class. The response is absent for a
  network failure; \<open>message\<close> is the text the method looks into.
\<close>

record HttpResponse =
  status :: nat
  message :: string

definition toLowerCase :: "string \<Rightarrow> string" where
  "toLowerCase s =
     map (\<lambda>c. let n = (of_char c :: nat)
               in if 65 \<le> n \<and> n \<le> 90 then char_of (n + 32) else c) s"

text \<open>\<open>s.includes(sub)\<close>.\<close>

fun str_includes :: "string \<Rightarrow> string \<Rightarrow> bool" where
  "str_includes [] sub = (sub = [])"
| "str_includes (c # cs) sub = (take (length sub) (c # cs) = sub \<or> str_includes cs sub)"

definition handleError :: "HttpResponse option \<Rightarrow> error" where
  "handleError response =
     (case response of
        None \<Rightarrow> NetworkError
      | Some r \<Rightarrow>
          if status r = 404 then
            (if str_includes (toLowerCase (message r)) ''inbox'' then InboxNotFoundError
             else if str_includes (toLowerCase (message r)) ''email'' then EmailNotFoundError
             else ApiError (status r))
          else ApiError (status r))"

text \<open>The two classes that say that the inbox or the email is gone.\<close>

fun is_not_found :: "error \<Rightarrow> bool" where
  "is_not_found InboxNotFoundError = True"
| "is_not_found EmailNotFoundError = True"
| "is_not_found _ = False"

section \<open>Stream strategy (strategies/sse-strategy.ts)\<close>

subsection \<open>Map and Set of the language\<close>

text \<open>
  A JavaScript \<open>Map\<close> keeps its entries in the order of insertion: it is a list of pairs
  in which \<open>set\<close> replaces the value of a key in place or appends a new entry. A \<open>Set\<close>
  is a list without repetition. A callback is the identity of a function object.
\<close>

definition Map_get :: "'k \<Rightarrow> ('k \<times> 'v) list \<Rightarrow> 'v option" where
  "Map_get k m = map_of m k"

fun Map_set :: "'k \<Rightarrow> 'v \<Rightarrow> ('k \<times> 'v) list \<Rightarrow> ('k \<times> 'v) list" where
  "Map_set k x [] = [(k, x)]"
| "Map_set k x ((k', x') # m) = (if k' = k then (k, x) # m else (k', x') # Map_set k x m)"

definition Map_delete :: "'k \<Rightarrow> ('k \<times> 'v) list \<Rightarrow> ('k \<times> 'v) list" where
  "Map_delete k m = filter (\<lambda>p. fst p \<noteq> k) m"

definition Set_add :: "'a \<Rightarrow> 'a list \<Rightarrow> 'a list" where
  "Set_add x xs = (if x \<in> set xs then xs else xs @ [x])"

definition Set_delete :: "'a \<Rightarrow> 'a list \<Rightarrow> 'a list" where
  "Set_delete x xs = filter (\<lambda>y. y \<noteq> x) xs"

text \<open>\<open>Array.prototype.join\<close>.\<close>

fun join :: "string \<Rightarrow> string list \<Rightarrow> string" where
  "join sep [] = []"
| "join sep [x] = x"
| "join sep (x # y # ys) = x @ sep @ join sep (y # ys)"

subsection \<open>The state of the strategy\<close>

type_synonym callback = nat

record InboxSubscription =
  emailAddress :: string
  inboxHash :: string
  keypair :: Keypair
  callbacks :: "callback list"

text \<open>
  The connection object: the address it was opened with and its \<open>readyState\<close>
  (0 connecting, 1 open, 2 closed).
\<close>

record EventSource =
  es_url :: string
  readyState :: nat

text \<open>
  What the strategy does to connections and timers is recorded in \<open>trace\<close>, a field that
  the class does not have. The timer handle is the delay it was set with. The field
  \<open>backoffMultiplier\<close> carries the prefix \<open>sse_\<close>, to tell it from the polling one.
\<close>

datatype stream_event = Opened string | Closed string | TimerSet rat | TimerCleared

record SSEStrategy =
  url :: string
  apiKey :: string
  reconnectInterval :: rat
  maxReconnectAttempts :: int
  sse_backoffMultiplier :: rat
  eventSource :: "EventSource option"
  subscriptions :: "(string \<times> InboxSubscription) list"
  reconnectAttempts :: nat
  reconnectTimer :: "rat option"
  isClosing :: bool
  trace :: "stream_event list"

record SSEConfig =
  cfg_url :: string
  cfg_apiKey :: string
  cfg_reconnectInterval :: "rat option"
  cfg_maxReconnectAttempts :: "int option"
  cfg_sse_backoffMultiplier :: "rat option"

definition new_SSEStrategy :: "SSEConfig \<Rightarrow> SSEStrategy" where
  "new_SSEStrategy config =
     \<lparr> url = cfg_url config,
       apiKey = cfg_apiKey config,
       reconnectInterval = nullish (cfg_reconnectInterval config) 5000,
       maxReconnectAttempts = nullish (cfg_maxReconnectAttempts config) 10,
       sse_backoffMultiplier = nullish (cfg_sse_backoffMultiplier config) 2,
       eventSource = None,
       subscriptions = [],
       reconnectAttempts = 0,
       reconnectTimer = None,
       isClosing = False,
       trace = [] \<rparr>"

subsection \<open>Connecting and disconnecting\<close>

definition disconnect :: "SSEStrategy \<Rightarrow> SSEStrategy" where
  "disconnect S =
     (let S1 = (case reconnectTimer S of
                  None \<Rightarrow> S
                | Some _ \<Rightarrow> S \<lparr> reconnectTimer := None, trace := trace S @ [TimerCleared] \<rparr>)
      in case eventSource S1 of
           None \<Rightarrow> S1
         | Some es \<Rightarrow> S1 \<lparr> eventSource := None, trace := trace S1 @ [Closed (es_url es)] \<rparr>)"

text \<open>
  A method returns the new state and the error it throws, if any. When the attempts are
  used up, \<open>handleConnectionError\<close> throws after it has disconnected.
\<close>

definition handleConnectionError :: "SSEStrategy \<Rightarrow> SSEStrategy \<times> error option" where
  "handleConnectionError S =
     (if isClosing S then (S, None)
      else
        let S1 = disconnect S
        in if int (reconnectAttempts S1) < maxReconnectAttempts S1 then
             (let backoffDelay =
                    reconnectInterval S1 * sse_backoffMultiplier S1 ^ reconnectAttempts S1
              in (S1 \<lparr> reconnectTimer := Some backoffDelay,
                       trace := trace S1 @ [TimerSet backoffDelay] \<rparr>, None))
           else (S1, Some SSEError))"

text \<open>The routing hashes that go into the address: those that are not empty.\<close>

definition inbox_hashes :: "(string \<times> InboxSubscription) list \<Rightarrow> string list" where
  "inbox_hashes subs = filter (\<lambda>hash. hash \<noteq> []) (map (\<lambda>p. inboxHash (snd p)) subs)"

text \<open>
  \<open>connect\<close>. Whether \<open>new EventSource(sseUrl, ...)\<close> succeeds is decided outside the
  code: \<open>can_open\<close> says for which addresses it does. When it throws, the \<open>catch\<close> block
  calls \<open>handleConnectionError\<close>.
\<close>

definition connect :: "(string \<Rightarrow> bool) \<Rightarrow> SSEStrategy \<Rightarrow> SSEStrategy \<times> error option" where
  "connect can_open S =
     (if isClosing S then (S, None)
      else if length (subscriptions S) = 0 then (S, None)
      else
        let inboxHashes = join '','' (inbox_hashes (subscriptions S))
        in if inboxHashes = [] then (S, None)
           else
             let sseUrl = url S @ ''/api/events?inboxes='' @ inboxHashes
             in if can_open sseUrl then
                  (S \<lparr> eventSource := Some \<lparr> es_url = sseUrl, readyState = 0 \<rparr>,
                       trace := trace S @ [Opened sseUrl] \<rparr>, None)
                else handleConnectionError S)"

definition reconnect :: "(string \<Rightarrow> bool) \<Rightarrow> SSEStrategy \<Rightarrow> SSEStrategy \<times> error option" where
  "reconnect can_open S = connect can_open (disconnect S)"


subsection \<open>The handlers of the connection and of the reconnection timer\<close>


text \<open>
  The \<open>onerror\<close> handler calls \<open>handleConnectionError\<close> and catches nothing: what that
  method throws leaves the handler.
\<close>

definition es_onerror :: "SSEStrategy \<Rightarrow> SSEStrategy \<times> error option" where
  "es_onerror S = handleConnectionError S"


subsection \<open>subscribe and the handle it returns\<close>

definition subscribe ::
  "(string \<Rightarrow> bool) \<Rightarrow> SSEStrategy \<Rightarrow> string \<Rightarrow> string \<Rightarrow> Keypair \<Rightarrow> callback
     \<Rightarrow> SSEStrategy \<times> error option"
where
  "subscribe can_open S address hash kp callback =
     (let subscription =
            (case Map_get address (subscriptions S) of
               None \<Rightarrow> \<lparr> emailAddress = address, inboxHash = hash, keypair = kp,
                          callbacks = [] \<rparr>
             | Some s \<Rightarrow> s);
          subscription' = subscription \<lparr> callbacks := Set_add callback (callbacks subscription) \<rparr>;
          S1 = S \<lparr> subscriptions := Map_set address subscription' (subscriptions S) \<rparr>
      in if eventSource S1 = None \<or> map_option readyState (eventSource S1) = Some 2
         then connect can_open S1
         else reconnect can_open S1)"

text \<open>
  The \<open>unsubscribe\<close> function of the handle that \<open>subscribe\<close> returned for \<open>address\<close> and
  \<open>callback\<close>.
\<close>

definition unsubscribe ::
  "(string \<Rightarrow> bool) \<Rightarrow> SSEStrategy \<Rightarrow> string \<Rightarrow> callback \<Rightarrow> SSEStrategy \<times> error option"
where
  "unsubscribe can_open S address callback =
     (case Map_get address (subscriptions S) of
        None \<Rightarrow> (S, None)
      | Some sub \<Rightarrow>
          let sub' = sub \<lparr> callbacks := Set_delete callback (callbacks sub) \<rparr>
          in if length (callbacks sub') = 0 then
               (let S1 = S \<lparr> subscriptions := Map_delete address (subscriptions S) \<rparr>
                in if length (subscriptions S1) = 0 then (disconnect S1, None)
                   else reconnect can_open S1)
             else (S \<lparr> subscriptions := Map_set address sub' (subscriptions S) \<rparr>, None))"

subsection \<open>waitForEmail\<close>

text \<open>
  The part of \<open>waitForEmail\<close> that runs before the method returns its promise: the
  executor subscribes, then tests whether the timeout has passed already. \<open>elapsed\<close> is
  \<open>Date.now() - startTime\<close> at that test. An error thrown inside the executor rejects the
  promise. The timeout timer belongs to the promise, not to the strategy.
\<close>

datatype wait_state = Pending | Rejected error

definition sse_waitForEmail ::
  "(string \<Rightarrow> bool) \<Rightarrow> SSEStrategy \<Rightarrow> string \<Rightarrow> string \<Rightarrow> Keypair \<Rightarrow> 'e WaitOptions \<Rightarrow> callback
     \<Rightarrow> rat \<Rightarrow> SSEStrategy \<times> wait_state"
where
  "sse_waitForEmail can_open S address hash kp options callback elapsed =
     (let timeout = nullish (opt_timeout options) 30000
      in case subscribe can_open S address hash kp callback of
           (S1, Some e) \<Rightarrow> (S1, Rejected e)
         | (S1, None) \<Rightarrow>
             if elapsed \<ge> timeout then
               (case unsubscribe can_open S1 address callback of
                  (S2, Some e) \<Rightarrow> (S2, Rejected e)
                | (S2, None) \<Rightarrow> (S2, Rejected TimeoutError))
             else (S1, Pending))"

subsection \<open>What happens to a strategy between two calls of a handle\<close>






section \<open>Sample inputs\<close>

text \<open>
  Stand-ins for the primitives, small enough to evaluate: a signature is valid when it
  equals the signing key, decapsulation fails on an empty ciphertext, and the derivation
  returns as many bytes as were asked for.
\<close>

definition sample_prims :: prims where
  "sample_prims =
     \<lparr> text_encode = map (\<lambda>c. of_nat (of_char c)),
       ml_dsa65_verify = (\<lambda>s t k. if k = [] then None else Some (s = k)),
       ml_kem768_decapsulate = (\<lambda>ct sk. if ct = [] then None else Some (ct @ sk)),
       subtle_digest_sha256 = (\<lambda>b. take 32 (b @ replicate 32 0)),
       subtle_hkdf_sha512 = (\<lambda>ikm salt info n. take (n div 8) (ikm @ replicate (n div 8) 0)),
       subtle_aes_gcm_decrypt = (\<lambda>key iv ad ct. if ct = [] then None else Some ct) \<rparr>"

definition sample_algs :: Algs where
  "sample_algs =
     \<lparr> alg_kem = ''Kyber768'', alg_sig = ''Dilithium3'', alg_aead = ''AES-256-GCM'',
       alg_kdf = ''HKDF-SHA-512'' \<rparr>"

definition sample_envelope :: EncryptedData where
  "sample_envelope =
     \<lparr> v = 1, ct_kem = Some ''AAE'', nonce = Some ''AA'', aad = Some ''_w'',
       ciphertext = Some ''-_8'', sig = Some ''AQ'', server_sig_pk = Some ''AQ'',
       algs = Some sample_algs \<rparr>"

text \<open>The same envelope with one bit of the signature flipped.\<close>

definition tampered_envelope :: EncryptedData where
  "tampered_envelope = sample_envelope \<lparr> sig := Some ''Aw'' \<rparr>"

definition sample_keypair :: Keypair where
  "sample_keypair = \<lparr> publicKey = [7], secretKey = [9], publicKeyB64 = ''Bw'' \<rparr>"

text \<open>
  A polling strategy with every setting left to its default, and a turn of the loop in
  which the inbox is empty and its hash is always the same; \<open>Math.random()\<close> yields
  one half.
\<close>

definition default_polling :: PollingStrategy where
  "default_polling =
     new_PollingStrategy \<lparr> cfg_initialInterval = None, cfg_maxBackoff = None,
       cfg_backoffMultiplier = None, cfg_jitterFactor = None \<rparr>"

definition wait_200s :: "string WaitOptions" where
  "wait_200s = \<lparr> opt_timeout = Some 200000, opt_pollInterval = None, accepts = (\<lambda>_. True) \<rparr>"

definition quiet_tick :: "rat \<Rightarrow> string tick" where
  "quiet_tick e =
     \<lparr> elapsed_at_test = e, sync = Inr \<lparr> emailCount = 0, emailsHash = ''h'' \<rparr>,
       listing = Inr [], elapsed_at_sleep = e, random = 1 / 2 \<rparr>"

text \<open>
  Eight such turns, each starting when the sleep of the one before is over.
\<close>

definition quiet_ticks :: "string tick list" where
  "quiet_ticks =
     map quiet_tick
       [0, 2300, 5750, 10925, 37375 / 2, 485300 / 16, 1529500 / 32, 4735700 / 64]"

text \<open>
  The sleep of a turn as section 4.4 of the specification writes it, without the bound
  \<open>maxBackoff\<close> on the jittered time.
\<close>

definition spec_sleep :: "rat \<Rightarrow> rat \<Rightarrow> rat \<Rightarrow> rat \<Rightarrow> rat" where
  "spec_sleep interval factor rnd remainingTime =
     min (interval + rnd * (interval * factor)) remainingTime"

text \<open>
  A stream strategy as the client builds it, a wait with a timeout of zero, and the
  strategy after two inboxes have subscribed, the second of them with an empty routing
  hash.
\<close>

definition sample_sse :: SSEStrategy where
  "sample_sse =
     new_SSEStrategy \<lparr> cfg_url = ''http://gw'', cfg_apiKey = ''key'',
       cfg_reconnectInterval = None, cfg_maxReconnectAttempts = None,
       cfg_sse_backoffMultiplier = None \<rparr>"

definition zero_wait :: "string WaitOptions" where
  "zero_wait = \<lparr> opt_timeout = Some 0, opt_pollInterval = None, accepts = (\<lambda>_. True) \<rparr>"

definition two_inboxes :: SSEStrategy where
  "two_inboxes =
     fst (subscribe (\<lambda>_. True)
            (fst (subscribe (\<lambda>_. True) sample_sse ''a@gw'' ''h1'' sample_keypair 11))
            ''b@gw'' '''' sample_keypair 12)"

text \<open>
  A strategy that allows no reconnection attempt, with one inbox subscribed and its
  connection open.
\<close>

definition no_retry_sse :: SSEStrategy where
  "no_retry_sse =
     fst (subscribe (\<lambda>_. True)
            (new_SSEStrategy \<lparr> cfg_url = ''http://gw'', cfg_apiKey = ''key'',
               cfg_reconnectInterval = Some 10, cfg_maxReconnectAttempts = Some 0,
               cfg_sse_backoffMultiplier = Some 1 \<rparr>)
            ''a@gw'' ''h1'' sample_keypair 11)"

text \<open>Two inboxes with routing hashes \<open>h1\<close> and \<open>h2\<close> on one connection.\<close>

definition two_live_inboxes :: SSEStrategy where
  "two_live_inboxes =
     fst (subscribe (\<lambda>_. True)
            (fst (subscribe (\<lambda>_. True) sample_sse ''a@gw'' ''h1'' sample_keypair 11))
            ''b@gw'' ''h2'' sample_keypair 12)"



section \<open>Properties of the codec\<close>

lemma byte_lt: "unat (a::byte) < 256"
  using unsigned_less[of a, where ?'a=nat] by simp

lemma recombine: "(n::nat) div (k * 64) * 64 + n div k mod 64 = n div k"
  by (simp add: div_mult2_eq)

lemma pack4: "(((n div 262144 * 64 + n div 4096 mod 64) * 64 + n div 64 mod 64) * 64 + n mod 64) = (n::nat)"
  using recombine[of n 4096] recombine[of n 64] by simp

lemma pack3: "((n div 1024 * 64 + n div 16 mod 64) * 64 + (n mod 16) * 4) = (n::nat) * 4"
proof -
  define q r where "q = n div 16" and "r = n mod 16"
  have n: "n = 16 * q + r" by (simp add: q_def r_def)
  have "n div 1024 * 64 + n div 16 mod 64 = q" using recombine[of n 16] by (simp add: q_def)
  then show ?thesis unfolding q_def[symmetric] r_def[symmetric] by (simp add: n)
qed

lemma pack2: "((n::nat) div 4 * 64 + (n mod 4) * 16) div 16 = n"
proof -
  define q r where "q = n div 4" and "r = n mod 4"
  have n: "n = 4 * q + r" by (simp add: q_def r_def)
  show ?thesis unfolding q_def[symmetric] r_def[symmetric] by (simp add: n)
qed

lemma divmod_pack: "y < k \<Longrightarrow> (x * k + y) div k = x \<and> (x * k + y) mod k = (y::nat)"
  by simp

lemma split3:
  assumes "a < 256" "b < 256" "c < 256" "n = a * 65536 + b * 256 + c"
  shows "n div 65536 = a \<and> n div 256 mod 256 = b \<and> n mod 256 = (c::nat)"
proof -
  define h where "h = a * 256 + b"
  have n: "n = h * 256 + c" using assms(4) by (simp add: h_def)
  have d: "n div 256 = h" "n mod 256 = c" unfolding n using divmod_pack[OF assms(3), of h] by simp_all
  have "n div 65536 = n div 256 div 256" by (simp add: div_mult2_eq)
  then have "n div 65536 = a" unfolding d h_def using divmod_pack[OF assms(2), of a] by simp
  moreover have "n div 256 mod 256 = b" unfolding d h_def using divmod_pack[OF assms(2), of a] by simp
  ultimately show ?thesis using d by simp
qed

lemma split2:
  assumes "b < 256" "n = a * 256 + b"
  shows "n * 4 div 1024 = a \<and> n * 4 div 4 mod 256 = (b::nat)"
proof -
  have "n * 4 div 1024 = n div 256" by simp
  then show ?thesis unfolding assms(2) using divmod_pack[OF assms(1), of a] by simp
qed

lemma sextets_lt: "\<forall>s \<in> set (sextets b). s < 64"
proof (induction b rule: sextets.induct)
  case (2 a)
  then show ?case using byte_lt[of a] by (auto simp: Let_def)
next
  case (3 a b)
  then show ?case using byte_lt[of a] byte_lt[of b] by (auto simp: Let_def)
next
  case (4 a b c rest)
  then show ?case using byte_lt[of a] byte_lt[of b] byte_lt[of c] by (auto simp: Let_def)
qed simp

lemma unsextets_sextets: "unsextets (sextets b) = b"
proof (induction b rule: sextets.induct)
  case (2 a)
  show ?case by (simp add: Let_def pack2)
next
  case (3 a b)
  define n where "n = unat a * 256 + unat b"
  have split: "n * 4 div 1024 = unat a" "n * 4 div 4 mod 256 = unat b"
    using split2[OF byte_lt[of b] n_def] by simp_all
  have "unsextets [n div 1024, n div 16 mod 64, n mod 16 * 4]
          = [of_nat (n * 4 div 1024), of_nat (n * 4 div 4 mod 256)]"
    by (simp only: unsextets.simps Let_def pack3)
  moreover have "(of_nat (unat a) :: byte) = a" "(of_nat (unat b) :: byte) = b"
    by simp_all
  ultimately have "unsextets [n div 1024, n div 16 mod 64, n mod 16 * 4] = [a, b]"
    by (simp only: split)
  then show ?case by (simp only: sextets.simps Let_def n_def)
next
  case (4 a b c rest)
  define n where "n = unat a * 65536 + unat b * 256 + unat c"
  have split: "n div 65536 = unat a" "n div 256 mod 256 = unat b" "n mod 256 = unat c"
    using split3[OF byte_lt[of a] byte_lt[of b] byte_lt[of c] n_def] by simp_all
  have "unsextets ([n div 262144, n div 4096 mod 64, n div 64 mod 64, n mod 64] @ sextets rest)
          = [of_nat (n div 65536), of_nat (n div 256 mod 256), of_nat (n mod 256)]
            @ unsextets (sextets rest)"
    by (simp only: unsextets.simps Let_def pack4 append.simps)
  moreover have "(of_nat (unat a) :: byte) = a" "(of_nat (unat b) :: byte) = b"
    "(of_nat (unat c) :: byte) = c"
    by simp_all
  ultimately have "unsextets ([n div 262144, n div 4096 mod 64, n div 64 mod 64, n mod 64]
                      @ sextets rest) = [a, b, c] @ rest"
    by (simp only: split 4)
  then show ?case by (simp only: sextets.simps Let_def n_def append.simps)
qed simp

lemma b64_alphabet:
  assumes "i < 64"
  shows "unbase64 (b64char i) = Some i"
    and "b64char i \<noteq> CHR ''=''" and "b64char i \<noteq> CHR ''-''" and "b64char i \<noteq> CHR ''_''"
proof -
  have "\<forall>i \<in> set [0..<64]. unbase64 (b64char i) = Some i \<and> b64char i \<noteq> CHR ''=''
          \<and> b64char i \<noteq> CHR ''-'' \<and> b64char i \<noteq> CHR ''_''"
    by code_simp
  with assms show "unbase64 (b64char i) = Some i"
    and "b64char i \<noteq> CHR ''=''" and "b64char i \<noteq> CHR ''-''" and "b64char i \<noteq> CHR ''_''"
    by simp_all
qed

lemma encode_url:
  "\<forall>s \<in> set ss. s < 64 \<Longrightarrow>
   remove_char CHR ''='' (replace_char CHR ''/'' CHR ''_'' (replace_char CHR ''+'' CHR ''-''
      (map b64char ss @ replicate k CHR ''=''))) = map urlchar ss"
  by (induction ss) (auto simp: remove_char_def replace_char_def urlchar_def Let_def b64_alphabet)

lemma urlchar_clean: "urlchar i \<noteq> CHR ''+'' \<and> urlchar i \<noteq> CHR ''/''"
  by (simp add: urlchar_def Let_def)

lemma decode_url:
  "\<forall>s \<in> set ss. s < 64 \<Longrightarrow>
   replace_char CHR ''_'' CHR ''/'' (replace_char CHR ''-'' CHR ''+'' (map urlchar ss)) = map b64char ss"
  by (induction ss) (auto simp: replace_char_def urlchar_def Let_def b64_alphabet)

lemma map_filter_unbase64:
  "\<forall>s \<in> set ss. s < 64 \<Longrightarrow>
   List.map_filter unbase64 (takeWhile (\<lambda>c. c \<noteq> CHR ''='') (map b64char ss @ replicate j CHR ''='')) = ss"
proof (induction ss)
  case Nil
  show ?case by (cases j) (simp_all add: List.map_filter_simps)
next
  case (Cons s ss)
  then show ?case by (simp add: List.map_filter_simps b64_alphabet)
qed

lemma toBase64Url_eq: "toBase64Url b = map urlchar (sextets b)"
  unfolding toBase64Url_def buffer_toString_base64_def Let_def
  by (rule encode_url) (rule sextets_lt)

lemma fromBase64Url_urlchars:
  assumes "\<forall>s \<in> set ss. s < 64"
  shows "fromBase64Url (map urlchar ss) = unsextets ss"
proof -
  have "buffer_from_base64 (map b64char ss @ replicate j CHR ''='') = unsextets ss" for j
    unfolding buffer_from_base64_def using map_filter_unbase64[OF assms] by simp
  from this[of 0] this[of "4 - length ss mod 4"]
  show ?thesis
    unfolding fromBase64Url_def by (simp add: decode_url[OF assms] Let_def)
qed

section \<open>Properties of verification and decryption\<close>

lemma foldl_lengths: "foldl (\<lambda>sum buf. sum + length buf) n bufs = n + sum_list (map length bufs)"
  by (induction bufs arbitrary: n) simp_all

lemma concat_loop_fill:
  "length rest = sum_list (map length bufs) \<Longrightarrow>
   concat_loop bufs (length pre) (pre @ rest) = Some (pre @ concat bufs)"
proof (induction bufs arbitrary: pre rest)
  case Nil
  then show ?case by simp
next
  case (Cons buf bufs)
  have fit: "typed_array_set (pre @ rest) buf (length pre) = Some ((pre @ buf) @ drop (length buf) rest)"
    using Cons.prems by (simp add: typed_array_set_def)
  have "length (drop (length buf) rest) = sum_list (map length bufs)"
    using Cons.prems by simp
  from Cons.IH[OF this, of "pre @ buf"] show ?case
    by (simp add: fit)
qed

lemma concatBuffers_concat: "concatBuffers bufs = Some (concat bufs)"
  using concat_loop_fill[of "replicate (sum_list (map length bufs)) 0" bufs "[]"]
  by (simp add: concatBuffers_def foldl_lengths)

lemma seq_simps:
  "seq (ret x) f = f x"
  "seq (throw e) f = throw e"
  "seq (Inl e, cs) f = (Inl e, cs)"
  "seq (Inr x, cs) f = (fst (f x), cs @ snd (f x))"
  by (simp_all add: seq_def ret_def throw_def split: prod.splits)

lemma unat_byte_of_word:
  "unat (ucast (drop_bit k (w :: 32 word)) :: byte) = unat w div 2 ^ k mod 256"
proof -
  have "unat (drop_bit k w) = unat w div 2 ^ k"
    using unat_drop_bit_eq[of k w] drop_bit_eq_div[of k "unat w"] by (rule trans)
  moreover have "unat (ucast (drop_bit k w) :: byte) = unat (drop_bit k w) mod 2 ^ 8"
    using unsigned_ucast_eq[of "drop_bit k w", where ?'c=8 and ?'a=nat]
    by (simp add: take_bit_eq_mod del: drop_bit_eq_div)
  ultimately show ?thesis by simp
qed

lemma recombine256: "(n::nat) div (k * 256) * 256 + n div k mod 256 = n div k"
  by (simp add: div_mult2_eq)

lemma be_value_setUint32_be: "be_value (setUint32_be n) = n mod 2 ^ 32"
proof -
  define m where "m = unat (of_nat n :: 32 word)"
  have m: "m = n mod 2 ^ 32" by (simp add: m_def unat_of_nat)
  then have "m < 4294967296" by simp
  then have hi: "m div 16777216 mod 256 = m div 16777216" by simp
  have "be_value (setUint32_be n) =
          ((m div 16777216 mod 256 * 256 + m div 65536 mod 256) * 256 + m div 256 mod 256) * 256
          + m mod 256"
    using unat_byte_of_word[of 24 "of_nat n"] unat_byte_of_word[of 16 "of_nat n"]
      unat_byte_of_word[of 8 "of_nat n"] unat_byte_of_word[of 0 "of_nat n"]
    by (simp add: be_value_def setUint32_be_def Let_def m_def)
  also have "\<dots> = m"
    using recombine256[of m 65536] recombine256[of m 256] recombine256[of m 1] by (simp add: hi)
  finally show ?thesis using m by simp
qed

lemma length_setUint32_be: "length (setUint32_be n) = 4"
  by (simp add: setUint32_be_def Let_def)

lemma buildTranscript_eq:
  "buildTranscript P ver cs c n a x k ctx =
     Some ([of_int ver] @ text_encode P cs @ text_encode P ctx @ c @ n @ a @ x @ k)"
  by (simp add: buildTranscript_def Let_def concatBuffers_concat)

lemma verifySignature_eq:
  "verifySignature P e =
     (case (sig e, ct_kem e, nonce e, aad e, ciphertext e, server_sig_pk e, algs e) of
        (Some s, Some c, Some n, Some a, Some x, Some k, Some g) \<Rightarrow>
          (let ciphersuite = alg_kem g @ '':'' @ alg_sig g @ '':'' @ alg_aead g @ '':'' @ alg_kdf g;
               transcript = [of_int (v e)] @ text_encode P ciphersuite
                  @ text_encode P HKDF_CONTEXT @ fromBase64Url c @ fromBase64Url n
                  @ fromBase64Url a @ fromBase64Url x @ fromBase64Url k
           in ((if ml_dsa65_verify P (fromBase64Url s) transcript (fromBase64Url k) = Some True
                then Inr True else Inl SignatureVerificationError),
               [Verify (fromBase64Url s) transcript (fromBase64Url k)]))
      | _ \<Rightarrow> (Inl SignatureVerificationError, []))"
  by (auto simp: verifySignature_def verifySignature_try_def decode_field_def seq_simps
      buildTranscript_eq buildAlgsCiphersuite_def ensureOwnBuffer_def invoke_def Let_def
      ret_def throw_def
      split: option.splits)

lemma verifySignature_cases:
  "verifySignature P e = (Inl SignatureVerificationError, [])
   \<or> (\<exists>s t k. verifySignature P e = (Inl SignatureVerificationError, [Verify s t k])
         \<and> ml_dsa65_verify P s t k \<noteq> Some True)
   \<or> (\<exists>s t k. verifySignature P e = (Inr True, [Verify s t k])
         \<and> ml_dsa65_verify P s t k = Some True)"
proof (cases "\<exists>s c n a x k g. sig e = Some s \<and> ct_kem e = Some c \<and> nonce e = Some n
     \<and> aad e = Some a \<and> ciphertext e = Some x \<and> server_sig_pk e = Some k \<and> algs e = Some g")
  case True
  then obtain s c n a x k g where f: "sig e = Some s" "ct_kem e = Some c" "nonce e = Some n"
    "aad e = Some a" "ciphertext e = Some x" "server_sig_pk e = Some k" "algs e = Some g"
    by blast
  define t where "t = [of_int (v e)]
      @ text_encode P (alg_kem g @ '':'' @ alg_sig g @ '':'' @ alg_aead g @ '':'' @ alg_kdf g)
      @ text_encode P HKDF_CONTEXT @ fromBase64Url c @ fromBase64Url n
      @ fromBase64Url a @ fromBase64Url x @ fromBase64Url k"
  have vs: "verifySignature P e =
      ((if ml_dsa65_verify P (fromBase64Url s) t (fromBase64Url k) = Some True
        then Inr True else Inl SignatureVerificationError),
       [Verify (fromBase64Url s) t (fromBase64Url k)])"
    by (simp add: verifySignature_eq f Let_def t_def)
  show ?thesis
  proof (cases "ml_dsa65_verify P (fromBase64Url s) t (fromBase64Url k) = Some True")
    case True
    with vs show ?thesis by auto
  next
    case False
    with vs show ?thesis by auto
  qed
next
  case False
  then have "verifySignature P e = (Inl SignatureVerificationError, [])"
    by (auto simp: verifySignature_eq split: option.splits)
  then show ?thesis by simp
qed

lemma seq_log_prefix: "\<exists>rest. snd (seq m f) = snd m @ rest"
  by (auto simp: seq_def split: prod.splits sum.splits)

lemma decrypt_log: "snd (decrypt P e kp) = snd (decrypt_try P e kp)"
  by (simp add: decrypt_def split: prod.splits sum.splits)

lemma decrypt_log_prefix: "\<exists>rest. snd (decrypt P e kp) = snd (verifySignature P e) @ rest"
  unfolding decrypt_log decrypt_try_def by (rule seq_log_prefix)

lemma decrypt_invalid:
  assumes "fst (verifySignature P e) \<noteq> Inr True"
  shows "decrypt P e kp = (Inl SignatureVerificationError, snd (verifySignature P e))"
proof -
  from verifySignature_cases[of P e] assms
  obtain cs where vs: "verifySignature P e = (Inl SignatureVerificationError, cs)"
    by auto
  then show ?thesis
    by (simp add: decrypt_def decrypt_try_def seq_simps)
qed

lemma verifySignature_no_decapsulate: "\<forall>c \<in> set (snd (verifySignature P e)). \<not> is_Decapsulate c"
  using verifySignature_cases[of P e] by auto

lemma deriveKey_eq:
  "deriveKey P ikm context aadBytes ctKem =
     (let salt = subtle_digest_sha256 P ctKem;
          info = text_encode P context @ setUint32_be (length aadBytes) @ aadBytes
      in (Inr (subtle_hkdf_sha512 P ikm salt info 256),
          [Digest ctKem, DeriveBits ikm salt info 256]))"
  by (simp add: deriveKey_def Let_def seq_simps invoke_def concatBuffers_concat
      ensureOwnBuffer_def ret_def)

lemma seq_invoke:
  "seq (invoke c r) f =
     (case r of None \<Rightarrow> (Inl PrimitiveError, [c])
      | Some x \<Rightarrow> (fst (f x), c # snd (f x)))"
  by (simp add: invoke_def seq_simps split: option.splits)

lemma decrypt_valid_log:
  assumes "verifySignature P e = (Inr True, cs)" and "ct_kem e = Some c"
    and "nonce e = Some n" and "aad e = Some a" and "ciphertext e = Some x"
  shows "\<exists>rest. snd (decrypt P e kp) = cs @ Decapsulate (fromBase64Url c) (secretKey kp) # rest"
  unfolding decrypt_log decrypt_try_def
  by (simp add: assms seq_simps seq_invoke decode_field_def ensureOwnBuffer_def
      split: option.splits)

lemma fromBase64Url_samples: "fromBase64Url ''AQ'' = [1]" "fromBase64Url ''Aw'' = [3]"
  by code_simp+

lemma sample_valid: "fst (verifySignature sample_prims sample_envelope) = Inr True"
  by (simp add: verifySignature_eq sample_envelope_def sample_prims_def Let_def
      fromBase64Url_samples)

lemma tampered_invalid: "fst (verifySignature sample_prims tampered_envelope) \<noteq> Inr True"
  by (simp add: verifySignature_eq tampered_envelope_def sample_envelope_def sample_prims_def
      Let_def fromBase64Url_samples)

lemma sample_decapsulates:
  "\<exists>c \<in> set (snd (decrypt sample_prims sample_envelope sample_keypair)). is_Decapsulate c"
proof -
  obtain cs where "verifySignature sample_prims sample_envelope = (Inr True, cs)"
    using sample_valid by (cases "verifySignature sample_prims sample_envelope") auto
  from decrypt_valid_log[OF this, of "''AAE''" "''AA''" "''_w''" "''-_8''" sample_keypair]
  show ?thesis by (auto simp: sample_envelope_def)
qed

section \<open>Properties of the polling strategy\<close>

lemma polling_catch_handleError:
  "status r = 404 \<Longrightarrow> is_not_found (polling_catch (handleError (Some r)))"
  by (simp add: handleError_def)

lemma poll_iteration_sync_error:
  "sync t = Inl e \<Longrightarrow>
   poll_iteration S options timeout pollInterval lastHash currentBackoff t
     = (Throw (polling_catch e), [GetSyncStatus])"
  by (simp add: poll_iteration_def)

lemma poll_iteration_no_change:
  assumes "sync t = Inr st" and "lastHash = Some (emailsHash st)"
    and "elapsed_at_sleep t < timeout"
  shows "poll_iteration S options timeout pollInterval lastHash currentBackoff t =
           (Continue lastHash (min (currentBackoff * backoffMultiplier S) (maxBackoff S)),
            [GetSyncStatus,
             Sleep (min (min (currentBackoff + random t * jitterFactor S * currentBackoff)
                           (maxBackoff S))
                      (timeout - elapsed_at_sleep t))])"
  using assms by (simp add: poll_iteration_def poll_sleep_def Let_def)

lemma poll_iteration_first_empty:
  assumes "sync t = Inr st" and "emailCount st = 0" and "elapsed_at_sleep t < timeout"
  shows "poll_iteration S options timeout pollInterval None currentBackoff t =
           (Continue (Some (emailsHash st)) (min (pollInterval * backoffMultiplier S) (maxBackoff S)),
            [GetSyncStatus,
             Sleep (min (min (pollInterval + random t * jitterFactor S * pollInterval)
                           (maxBackoff S))
                      (timeout - elapsed_at_sleep t))])"
  using assms by (simp add: poll_iteration_def poll_sleep_def Let_def)

lemma poll_loop_continue:
  assumes "elapsed_at_test t < timeout"
    and "poll_iteration S options timeout pollInterval lastHash currentBackoff t
           = (Continue lastHash' currentBackoff', acts)"
  shows "poll_loop S options timeout pollInterval lastHash currentBackoff (t # ts) =
           (fst (poll_loop S options timeout pollInterval lastHash' currentBackoff' ts),
            acts @ snd (poll_loop S options timeout pollInterval lastHash' currentBackoff' ts))"
  using assms by (simp add: split_beta)

lemma default_polling_simps:
  "initialInterval default_polling = 2000" "maxBackoff default_polling = 30000"
  "backoffMultiplier default_polling = 3 / 2" "jitterFactor default_polling = 3 / 10"
  by (simp_all add: default_polling_def new_PollingStrategy_def nullish_def)

lemma jitter_bounds:
  assumes "0 \<le> r" and "r < 1"
  shows "(6750::rat) \<le> 6750 + r * (3 / 10) * 6750"
    and "6750 + r * (3 / 10) * 6750 < 6750 * (13 / 10)"
    and "min (6750 + r * (3 / 10) * 6750) 30000 = 6750 + r * (3 / 10) * 6750"
  using assms by simp_all

section \<open>Properties of the stream strategy\<close>

lemma Map_get_set: "Map_get k (Map_set k x m) = Some x"
  by (induction m) (auto simp: Map_get_def)

lemma Map_get_Nil [simp]: "Map_get k [] = None"
  by (simp add: Map_get_def)


lemma Map_set_same: "Map_get k m = Some x \<Longrightarrow> Map_set k x m = m"
  by (induction m) (auto simp: Map_get_def split: if_splits)

lemma Map_delete_set_fresh: "Map_get k m = None \<Longrightarrow> Map_delete k (Map_set k x m) = m"
  by (induction m) (auto simp: Map_get_def Map_delete_def split: if_splits)

lemma Map_set_set: "Map_set k y (Map_set k x m) = Map_set k y m"
  by (induction m) auto

lemma Set_delete_add_fresh: "x \<notin> set xs \<Longrightarrow> Set_delete x (Set_add x xs) = xs"
  by (auto simp: Set_delete_def Set_add_def filter_id_conv)


lemma subscriptions_disconnect [simp]: "subscriptions (disconnect S) = subscriptions S"
  by (simp add: disconnect_def Let_def split: option.splits)

lemma isClosing_disconnect [simp]: "isClosing (disconnect S) = isClosing S"
  by (simp add: disconnect_def Let_def split: option.splits)

lemma url_disconnect [simp]: "url (disconnect S) = url S"
  by (simp add: disconnect_def Let_def split: option.splits)

lemma eventSource_disconnect [simp]: "eventSource (disconnect S) = None"
  by (simp add: disconnect_def Let_def split: option.splits)

lemma reconnectTimer_disconnect [simp]: "reconnectTimer (disconnect S) = None"
  by (simp add: disconnect_def Let_def split: option.splits)

lemma attempts_disconnect [simp]:
  "reconnectAttempts (disconnect S) = reconnectAttempts S"
  "maxReconnectAttempts (disconnect S) = maxReconnectAttempts S"
  by (simp_all add: disconnect_def Let_def split: option.splits)

lemma disconnect_idem [simp]: "disconnect (disconnect S) = disconnect S"
  by (simp add: disconnect_def Let_def split: option.splits)

lemma subscriptions_handleConnectionError [simp]:
  "subscriptions (fst (handleConnectionError S)) = subscriptions S"
  by (simp add: handleConnectionError_def Let_def)

lemma subscriptions_connect [simp]: "subscriptions (fst (connect can_open S)) = subscriptions S"
  by (simp add: connect_def Let_def)

lemma subscriptions_reconnect [simp]:
  "subscriptions (fst (reconnect can_open S)) = subscriptions S"
  by (simp add: reconnect_def)



lemma join_nonempty:
  "hs \<noteq> [] \<Longrightarrow> \<forall>h \<in> set hs. h \<noteq> [] \<Longrightarrow> join sep hs \<noteq> []"
  by (induction sep hs rule: join.induct) auto

lemma join_inbox_hashes_nonempty:
  "inbox_hashes subs \<noteq> [] \<Longrightarrow> join sep (inbox_hashes subs) \<noteq> []"
  by (rule join_nonempty) (auto simp: inbox_hashes_def)

lemma handleConnectionError_exhausted:
  "\<not> isClosing S \<Longrightarrow> maxReconnectAttempts S \<le> int (reconnectAttempts S) \<Longrightarrow>
   handleConnectionError S = (disconnect S, Some SSEError)"
  by (simp add: handleConnectionError_def Let_def)

lemma handleConnectionError_retry:
  "\<not> isClosing S \<Longrightarrow> int (reconnectAttempts S) < maxReconnectAttempts S \<Longrightarrow>
   snd (handleConnectionError S) = None
   \<and> reconnectTimer (fst (handleConnectionError S))
       = Some (reconnectInterval S * sse_backoffMultiplier S ^ reconnectAttempts S)"
  by (simp add: handleConnectionError_def Let_def disconnect_def split: option.splits)

lemma trace_disconnect_subscriptions:
  "trace (disconnect (S \<lparr> subscriptions := subs \<rparr>)) = trace (disconnect S)"
  by (simp add: disconnect_def Let_def split: option.splits)

lemma connect_opens:
  assumes "\<not> isClosing S" and "inbox_hashes (subscriptions S) \<noteq> []"
    and "can_open (url S @ ''/api/events?inboxes='' @ join '','' (inbox_hashes (subscriptions S)))"
  shows "connect can_open S =
           (S \<lparr> eventSource := Some \<lparr> es_url = url S @ ''/api/events?inboxes=''
                                           @ join '','' (inbox_hashes (subscriptions S)),
                                       readyState = 0 \<rparr>,
                 trace := trace S @ [Opened (url S @ ''/api/events?inboxes=''
                                           @ join '','' (inbox_hashes (subscriptions S)))] \<rparr>,
            None)"
proof -
  have "subscriptions S \<noteq> []" using assms(2) by (auto simp: inbox_hashes_def)
  moreover have "join '','' (inbox_hashes (subscriptions S)) \<noteq> []"
    using assms(2) by (rule join_inbox_hashes_nonempty)
  ultimately show ?thesis using assms by (simp add: connect_def Let_def)
qed

lemma unsubscribe_last_callback:
  assumes "Map_get address (subscriptions S) = Some sub"
    and "Set_delete callback (callbacks sub) = []"
  shows "unsubscribe can_open S address callback =
           (if Map_delete address (subscriptions S) = []
            then (disconnect (S \<lparr> subscriptions := [] \<rparr>), None)
            else reconnect can_open (S \<lparr> subscriptions := Map_delete address (subscriptions S) \<rparr>))"
  using assms by (simp add: unsubscribe_def Let_def)

lemma subscriptions_unsubscribe_last:
  assumes "Map_get address (subscriptions S) = Some sub"
    and "Set_delete callback (callbacks sub) = []"
  shows "subscriptions (fst (unsubscribe can_open S address callback))
           = Map_delete address (subscriptions S)"
  using assms by (simp add: unsubscribe_last_callback)

lemma subscribe_cases:
  "\<exists>S1. isClosing S1 = isClosing S \<and> url S1 = url S
     \<and> (subscribe can_open S address hash kp callback = connect can_open S1
          \<or> subscribe can_open S address hash kp callback = connect can_open (disconnect S1))"
proof -
  let ?sub = "case Map_get address (subscriptions S) of
               None \<Rightarrow> \<lparr> emailAddress = address, inboxHash = hash, keypair = kp, callbacks = [] \<rparr>
             | Some s \<Rightarrow> s"
  let ?S1 = "S \<lparr> subscriptions :=
      Map_set address (?sub \<lparr> callbacks := Set_add callback (callbacks ?sub) \<rparr>) (subscriptions S) \<rparr>"
  have "subscribe can_open S address hash kp callback = connect can_open ?S1
        \<or> subscribe can_open S address hash kp callback = connect can_open (disconnect ?S1)"
    unfolding subscribe_def Let_def reconnect_def by (rule if_split[THEN iffD2]) blast
  moreover have "isClosing ?S1 = isClosing S" "url ?S1 = url S" by simp_all
  ultimately show ?thesis by blast
qed

lemma two_live_inboxes_fields:
  "subscriptions two_live_inboxes =
     [(''a@gw'', \<lparr> emailAddress = ''a@gw'', inboxHash = ''h1'', keypair = sample_keypair,
                   callbacks = [11] \<rparr>),
      (''b@gw'', \<lparr> emailAddress = ''b@gw'', inboxHash = ''h2'', keypair = sample_keypair,
                   callbacks = [12] \<rparr>)]"
  "isClosing two_live_inboxes = False"
  "url two_live_inboxes = ''http://gw''"
  by code_simp+

lemma polling_timeout_elapsed:
  "nullish (opt_timeout options) 30000 \<le> elapsed_at_test t \<Longrightarrow>
   polling_waitForEmail P options (t # ts) = (Some (Inl TimeoutError), [])"
  by (simp add: polling_waitForEmail_def Let_def)

lemma subscribe_registry:
  "subscriptions (fst (subscribe can_open S address hash kp callback)) =
     Map_set address
       ((case Map_get address (subscriptions S) of
           None \<Rightarrow> \<lparr> emailAddress = address, inboxHash = hash, keypair = kp, callbacks = [] \<rparr>
         | Some s \<Rightarrow> s)
        \<lparr> callbacks := Set_add callback
             (callbacks (case Map_get address (subscriptions S) of
                None \<Rightarrow> \<lparr> emailAddress = address, inboxHash = hash, keypair = kp,
                           callbacks = [] \<rparr>
              | Some s \<Rightarrow> s)) \<rparr>)
       (subscriptions S)"
  by (simp add: subscribe_def Let_def)

lemma subscriptions_unsubscribe:
  "subscriptions (fst (unsubscribe can_open S address callback)) =
     (case Map_get address (subscriptions S) of
        None \<Rightarrow> subscriptions S
      | Some sub \<Rightarrow>
          if Set_delete callback (callbacks sub) = [] then Map_delete address (subscriptions S)
          else Map_set address (sub \<lparr> callbacks := Set_delete callback (callbacks sub) \<rparr>)
                 (subscriptions S))"
  by (simp add: unsubscribe_def Let_def split: option.splits)

lemma wait_registry_restored:
  assumes "Map_get address (subscriptions S) = None
           \<or> (\<exists>sub. Map_get address (subscriptions S) = Some sub
                 \<and> callback \<notin> set (callbacks sub) \<and> callbacks sub \<noteq> [])"
  shows "subscriptions (fst (unsubscribe can_open
            (fst (subscribe can_open S address hash kp callback)) address callback))
         = subscriptions S"
  using assms
proof
  assume n: "Map_get address (subscriptions S) = None"
  show ?thesis
    by (simp add: subscriptions_unsubscribe subscribe_registry n Map_get_set Set_add_def
        Set_delete_def Map_delete_set_fresh)
next
  assume "\<exists>sub. Map_get address (subscriptions S) = Some sub
                 \<and> callback \<notin> set (callbacks sub) \<and> callbacks sub \<noteq> []"
  then obtain sub where g: "Map_get address (subscriptions S) = Some sub"
    and f: "callback \<notin> set (callbacks sub)" and ne: "callbacks sub \<noteq> []"
    by blast
  have d: "Set_delete callback (Set_add callback (callbacks sub)) = callbacks sub"
    using f by (rule Set_delete_add_fresh)
  show ?thesis
    by (simp add: subscriptions_unsubscribe subscribe_registry g Map_get_set d ne Map_set_set
        Map_set_same[OF g])
qed









section \<open>The claims\<close>

text \<open>
  C1. For every envelope and keypair: when the signature does not verify against the
  transcript built from the fields of that envelope, \<open>decrypt\<close> fails with
  \<open>SignatureVerificationError\<close> and its log holds no decapsulation; and whenever the log
  of \<open>decrypt\<close> holds a decapsulation, the log starts with the verifier's call on this
  envelope, and that call returned true.
\<close>

theorem decrypt_verifies_first:
  "(fst (verifySignature P e) \<noteq> Inr True \<longrightarrow>
      decrypt P e kp = (Inl SignatureVerificationError, snd (verifySignature P e))
      \<and> (\<forall>c \<in> set (snd (decrypt P e kp)). \<not> is_Decapsulate c))
   \<and> ((\<exists>c \<in> set (snd (decrypt P e kp)). is_Decapsulate c) \<longrightarrow>
        (\<exists>s t k rest. snd (verifySignature P e) = [Verify s t k]
            \<and> ml_dsa65_verify P s t k = Some True
            \<and> snd (decrypt P e kp) = Verify s t k # rest))"
proof (intro conjI impI)
  assume "fst (verifySignature P e) \<noteq> Inr True"
  then show "decrypt P e kp = (Inl SignatureVerificationError, snd (verifySignature P e))"
    by (rule decrypt_invalid)
next
  assume "fst (verifySignature P e) \<noteq> Inr True"
  then have "snd (decrypt P e kp) = snd (verifySignature P e)"
    by (simp add: decrypt_invalid)
  then show "\<forall>c \<in> set (snd (decrypt P e kp)). \<not> is_Decapsulate c"
    using verifySignature_no_decapsulate[of P e] by simp
next
  assume dec: "\<exists>c \<in> set (snd (decrypt P e kp)). is_Decapsulate c"
  have ok: "fst (verifySignature P e) = Inr True"
  proof (rule ccontr)
    assume "fst (verifySignature P e) \<noteq> Inr True"
    then have "snd (decrypt P e kp) = snd (verifySignature P e)"
      by (simp add: decrypt_invalid)
    with dec verifySignature_no_decapsulate[of P e] show False by simp
  qed
  with verifySignature_cases[of P e]
  obtain s t k where vs: "snd (verifySignature P e) = [Verify s t k]"
    and valid: "ml_dsa65_verify P s t k = Some True"
    by auto
  from decrypt_log_prefix[of P e kp] vs
  obtain rest where "snd (decrypt P e kp) = Verify s t k # rest" by auto
  with vs valid
  show "\<exists>s t k rest. snd (verifySignature P e) = [Verify s t k]
            \<and> ml_dsa65_verify P s t k = Some True
            \<and> snd (decrypt P e kp) = Verify s t k # rest"
    by blast
qed

theorem decrypt_verifies_first_witness:
  "fst (verifySignature sample_prims tampered_envelope) \<noteq> Inr True
   \<and> fst (decrypt sample_prims tampered_envelope sample_keypair) = Inl SignatureVerificationError
   \<and> \<not> (\<exists>c \<in> set (snd (decrypt sample_prims tampered_envelope sample_keypair)). is_Decapsulate c)
   \<and> (\<exists>c \<in> set (snd (decrypt sample_prims sample_envelope sample_keypair)). is_Decapsulate c)
   \<and> (\<exists>s t k rest. ml_dsa65_verify sample_prims s t k = Some True
         \<and> snd (decrypt sample_prims sample_envelope sample_keypair) = Verify s t k # rest)"
proof -
  note bad = tampered_invalid and good = sample_decapsulates
  from decrypt_verifies_first[of sample_prims tampered_envelope sample_keypair] bad
  have "decrypt sample_prims tampered_envelope sample_keypair
          = (Inl SignatureVerificationError, snd (verifySignature sample_prims tampered_envelope))"
    and "\<forall>c \<in> set (snd (decrypt sample_prims tampered_envelope sample_keypair)). \<not> is_Decapsulate c"
    by blast+
  moreover from decrypt_verifies_first[of sample_prims sample_envelope sample_keypair] good
  have "\<exists>s t k rest. ml_dsa65_verify sample_prims s t k = Some True
         \<and> snd (decrypt sample_prims sample_envelope sample_keypair) = Verify s t k # rest"
    by blast
  ultimately show ?thesis using bad good by simp
qed

text \<open>
  C2. For every envelope, the verifier builds the ciphersuite string
  \<open>kem:sig:aead:kdf\<close> and verifies the signature over the version byte, the ciphersuite
  bytes, the context bytes, the KEM ciphertext, the nonce, the additional data, the
  ciphertext and the server signing key, in this order. A field that cannot be decoded, an
  exception of the primitive and a false result all end in the one
  \<open>SignatureVerificationError\<close>.
\<close>

theorem verifySignature_transcript:
  "verifySignature P e =
     (case (sig e, ct_kem e, nonce e, aad e, ciphertext e, server_sig_pk e, algs e) of
        (Some s, Some c, Some n, Some a, Some x, Some k, Some g) \<Rightarrow>
          (let ciphersuite = alg_kem g @ '':'' @ alg_sig g @ '':'' @ alg_aead g @ '':'' @ alg_kdf g;
               transcript = [of_int (v e)] @ text_encode P ciphersuite
                  @ text_encode P HKDF_CONTEXT @ fromBase64Url c @ fromBase64Url n
                  @ fromBase64Url a @ fromBase64Url x @ fromBase64Url k
           in ((if ml_dsa65_verify P (fromBase64Url s) transcript (fromBase64Url k) = Some True
                then Inr True else Inl SignatureVerificationError),
               [Verify (fromBase64Url s) transcript (fromBase64Url k)]))
      | _ \<Rightarrow> (Inl SignatureVerificationError, []))"
proof (cases "sig e = None \<or> ct_kem e = None \<or> nonce e = None \<or> aad e = None
    \<or> ciphertext e = None \<or> server_sig_pk e = None \<or> algs e = None")
  case True
  then have "verifySignature_try P e = (Inl TypeError, [])"
    by (auto simp: verifySignature_try_def decode_field_def seq_simps ret_def throw_def
        split: option.splits)
  then have "verifySignature P e = (Inl SignatureVerificationError, [])"
    by (simp add: verifySignature_def)
  with True show ?thesis
    by (auto split: option.splits)
next
  case False
  then obtain s c n a x k g where f: "sig e = Some s" "ct_kem e = Some c" "nonce e = Some n"
    "aad e = Some a" "ciphertext e = Some x" "server_sig_pk e = Some k" "algs e = Some g"
    by auto
  define t where "t = [of_int (v e)]
      @ text_encode P (alg_kem g @ '':'' @ alg_sig g @ '':'' @ alg_aead g @ '':'' @ alg_kdf g)
      @ text_encode P HKDF_CONTEXT @ fromBase64Url c @ fromBase64Url n
      @ fromBase64Url a @ fromBase64Url x @ fromBase64Url k"
  have b: "buildTranscript P (v e) (buildAlgsCiphersuite g) (fromBase64Url c) (fromBase64Url n)
             (fromBase64Url a) (fromBase64Url x) (fromBase64Url k) HKDF_CONTEXT = Some t"
    by (simp add: buildTranscript_eq buildAlgsCiphersuite_def t_def)
  have "verifySignature_try P e =
      (case ml_dsa65_verify P (fromBase64Url s) t (fromBase64Url k) of
         None \<Rightarrow> (Inl PrimitiveError, [Verify (fromBase64Url s) t (fromBase64Url k)])
       | Some isValid \<Rightarrow>
           (if isValid then Inr True else Inl SignatureVerificationError,
            [Verify (fromBase64Url s) t (fromBase64Url k)]))"
    by (simp add: verifySignature_try_def f decode_field_def seq_simps b seq_invoke
        ensureOwnBuffer_def ret_def throw_def split: option.splits)
  then have "verifySignature P e =
      ((if ml_dsa65_verify P (fromBase64Url s) t (fromBase64Url k) = Some True
        then Inr True else Inl SignatureVerificationError),
       [Verify (fromBase64Url s) t (fromBase64Url k)])"
    by (auto simp: verifySignature_def split: option.splits)
  then show ?thesis
    by (simp add: f Let_def t_def)
qed

text \<open>
  C3. \<open>deriveKey\<close> takes the SHA-256 digest of the KEM ciphertext as salt, builds the info
  from the context bytes, the length of the additional data as four bytes with the high
  byte first, and the additional data, asks the HKDF primitive for 256 bits over the
  shared secret, and returns what it yields: 32 bytes for any primitive that returns as
  many bits as requested. The result is a function of the four inputs alone.
\<close>

theorem deriveKey_spec:
  "deriveKey P ikm context aadBytes ctKem =
     (let salt = subtle_digest_sha256 P ctKem;
          info = text_encode P context @ setUint32_be (length aadBytes) @ aadBytes
      in (Inr (subtle_hkdf_sha512 P ikm salt info 256),
          [Digest ctKem, DeriveBits ikm salt info 256]))
   \<and> length (setUint32_be (length aadBytes)) = 4
   \<and> be_value (setUint32_be (length aadBytes)) = length aadBytes mod 2 ^ 32
   \<and> ((\<forall>i s f n. n mod 8 = 0 \<and> n \<le> 255 * 512 \<longrightarrow>
           8 * length (subtle_hkdf_sha512 P i s f n) = n) \<longrightarrow>
        (\<exists>key. fst (deriveKey P ikm context aadBytes ctKem) = Inr key \<and> length key = 32))"
proof (intro conjI impI)
  assume c: "\<forall>i s f n. n mod 8 = 0 \<and> n \<le> 255 * 512 \<longrightarrow>
           8 * length (subtle_hkdf_sha512 P i s f n) = n"
  have "8 * length (subtle_hkdf_sha512 P i s f 256) = 256" for i s f
    using c[rule_format, of 256 i s f] by simp
  then show "\<exists>key. fst (deriveKey P ikm context aadBytes ctKem) = Inr key \<and> length key = 32"
    by (simp add: deriveKey_eq Let_def)
qed (simp_all add: deriveKey_eq length_setUint32_be be_value_setUint32_be)

theorem deriveKey_spec_witness:
  "\<exists>key. fst (deriveKey sample_prims [1, 2, 3] HKDF_CONTEXT [255] [0, 1]) = Inr key
     \<and> length key = 32"
proof -
  have c: "\<forall>i s f n. n mod 8 = 0 \<and> n \<le> 255 * 512 \<longrightarrow>
           8 * length (subtle_hkdf_sha512 sample_prims i s f n) = n"
    by (auto simp: sample_prims_def)
  with deriveKey_spec[of sample_prims "[1, 2, 3]" HKDF_CONTEXT "[255]" "[0, 1]"]
  show ?thesis by blast
qed

text \<open>
  C4, as the code has it. A turn of the polling loop in which the hash has not changed
  sleeps \<open>min (min (interval + random * jitterFactor * interval) maxBackoff) remaining\<close>
  and then sets the interval to \<open>min (interval * backoffMultiplier) maxBackoff\<close> for the
  next turn. With the defaults (2000 ms, 1.5, 30000 ms, 0.3), after a first check that
  finds an empty inbox and three turns without a change, the third of them computes its
  jitter from the interval 6750 ms, the jittered time lies between 6750 and 6750 * 1.3, and
  the turn sleeps the smaller of the jittered time and the time that remains.
\<close>

theorem polling_backoff_schedule:
  "(sync t = Inr st \<and> lastHash = Some (emailsHash st) \<and> elapsed_at_sleep t < timeout \<longrightarrow>
      poll_iteration S options timeout pollInterval lastHash currentBackoff t =
        (Continue lastHash (min (currentBackoff * backoffMultiplier S) (maxBackoff S)),
         [GetSyncStatus,
          Sleep (min (min (currentBackoff + random t * jitterFactor S * currentBackoff)
                        (maxBackoff S))
                   (timeout - elapsed_at_sleep t))]))
   \<and> (opt_timeout options = Some T \<and> opt_pollInterval options = None
        \<and> sync ta = Inr sa \<and> emailCount sa = 0
        \<and> sync tb = Inr sb \<and> emailsHash sb = emailsHash sa
        \<and> sync tc = Inr sc \<and> emailsHash sc = emailsHash sa
        \<and> sync td = Inr sd \<and> emailsHash sd = emailsHash sa
        \<and> elapsed_at_test ta < T \<and> elapsed_at_test tb < T \<and> elapsed_at_test tc < T
        \<and> elapsed_at_test td < T
        \<and> elapsed_at_sleep ta < T \<and> elapsed_at_sleep tb < T \<and> elapsed_at_sleep tc < T
        \<and> elapsed_at_sleep td < T
        \<and> 0 \<le> random td \<and> random td < 1 \<longrightarrow>
      (\<exists>w0 w1 w2.
         polling_waitForEmail default_polling options (ta # tb # tc # td # ts) =
           (fst (poll_loop default_polling options T 2000 (Some (emailsHash sa)) 10125 ts),
            [GetSyncStatus, Sleep w0, GetSyncStatus, Sleep w1, GetSyncStatus, Sleep w2,
             GetSyncStatus,
             Sleep (min (6750 + random td * (3 / 10) * 6750) (T - elapsed_at_sleep td))]
            @ snd (poll_loop default_polling options T 2000 (Some (emailsHash sa)) 10125 ts)))
      \<and> 6750 \<le> 6750 + random td * (3 / 10) * 6750
      \<and> 6750 + random td * (3 / 10) * 6750 < 6750 * (13 / 10))"
proof (intro conjI impI)
  assume "sync t = Inr st \<and> lastHash = Some (emailsHash st) \<and> elapsed_at_sleep t < timeout"
  then show "poll_iteration S options timeout pollInterval lastHash currentBackoff t =
        (Continue lastHash (min (currentBackoff * backoffMultiplier S) (maxBackoff S)),
         [GetSyncStatus,
          Sleep (min (min (currentBackoff + random t * jitterFactor S * currentBackoff)
                        (maxBackoff S))
                   (timeout - elapsed_at_sleep t))])"
    by (simp add: poll_iteration_no_change)
next
  assume h: "opt_timeout options = Some T \<and> opt_pollInterval options = None
        \<and> sync ta = Inr sa \<and> emailCount sa = 0
        \<and> sync tb = Inr sb \<and> emailsHash sb = emailsHash sa
        \<and> sync tc = Inr sc \<and> emailsHash sc = emailsHash sa
        \<and> sync td = Inr sd \<and> emailsHash sd = emailsHash sa
        \<and> elapsed_at_test ta < T \<and> elapsed_at_test tb < T \<and> elapsed_at_test tc < T
        \<and> elapsed_at_test td < T
        \<and> elapsed_at_sleep ta < T \<and> elapsed_at_sleep tb < T \<and> elapsed_at_sleep tc < T
        \<and> elapsed_at_sleep td < T
        \<and> 0 \<le> random td \<and> random td < 1"
  let ?h = "Some (emailsHash sa)"
  let ?loop = "poll_loop default_polling options T 2000"
  have i0: "poll_iteration default_polling options T 2000 None 2000 ta =
      (Continue ?h 3000,
       [GetSyncStatus, Sleep (min (min (2000 + random ta * (3 / 10) * 2000) 30000)
                                (T - elapsed_at_sleep ta))])"
    using h poll_iteration_first_empty[of ta sa T default_polling options 2000 2000]
    by (simp add: default_polling_simps)
  have i1: "poll_iteration default_polling options T 2000 ?h 3000 tb =
      (Continue ?h 4500,
       [GetSyncStatus, Sleep (min (min (3000 + random tb * (3 / 10) * 3000) 30000)
                                (T - elapsed_at_sleep tb))])"
    using h poll_iteration_no_change[of tb sb ?h T default_polling options 2000 3000]
    by (simp add: default_polling_simps)
  have i2: "poll_iteration default_polling options T 2000 ?h 4500 tc =
      (Continue ?h 6750,
       [GetSyncStatus, Sleep (min (min (4500 + random tc * (3 / 10) * 4500) 30000)
                                (T - elapsed_at_sleep tc))])"
    using h poll_iteration_no_change[of tc sc ?h T default_polling options 2000 4500]
    by (simp add: default_polling_simps)
  have i3: "poll_iteration default_polling options T 2000 ?h 6750 td =
      (Continue ?h 10125,
       [GetSyncStatus, Sleep (min (6750 + random td * (3 / 10) * 6750)
                                (T - elapsed_at_sleep td))])"
    using h poll_iteration_no_change[of td sd ?h T default_polling options 2000 6750]
      jitter_bounds(3)[of "random td"]
    by (simp add: default_polling_simps)
  have l3: "?loop ?h 6750 (td # ts) =
      (fst (?loop ?h 10125 ts),
       [GetSyncStatus, Sleep (min (6750 + random td * (3 / 10) * 6750)
                                (T - elapsed_at_sleep td))] @ snd (?loop ?h 10125 ts))"
    using h by (intro poll_loop_continue[OF _ i3]) simp
  have l2: "?loop ?h 4500 (tc # td # ts) =
      (fst (?loop ?h 6750 (td # ts)),
       [GetSyncStatus, Sleep (min (min (4500 + random tc * (3 / 10) * 4500) 30000)
                                (T - elapsed_at_sleep tc))] @ snd (?loop ?h 6750 (td # ts)))"
    using h by (intro poll_loop_continue[OF _ i2]) simp
  have l1: "?loop ?h 3000 (tb # tc # td # ts) =
      (fst (?loop ?h 4500 (tc # td # ts)),
       [GetSyncStatus, Sleep (min (min (3000 + random tb * (3 / 10) * 3000) 30000)
                                (T - elapsed_at_sleep tb))] @ snd (?loop ?h 4500 (tc # td # ts)))"
    using h by (intro poll_loop_continue[OF _ i1]) simp
  have l0: "?loop None 2000 (ta # tb # tc # td # ts) =
      (fst (?loop ?h 3000 (tb # tc # td # ts)),
       [GetSyncStatus, Sleep (min (min (2000 + random ta * (3 / 10) * 2000) 30000)
                                (T - elapsed_at_sleep ta))]
       @ snd (?loop ?h 3000 (tb # tc # td # ts)))"
    using h by (intro poll_loop_continue[OF _ i0]) simp
  have w: "polling_waitForEmail default_polling options (ta # tb # tc # td # ts)
             = ?loop None 2000 (ta # tb # tc # td # ts)"
    using h by (simp add: polling_waitForEmail_def nullish_def default_polling_simps)
  show "\<exists>w0 w1 w2.
         polling_waitForEmail default_polling options (ta # tb # tc # td # ts) =
           (fst (?loop ?h 10125 ts),
            [GetSyncStatus, Sleep w0, GetSyncStatus, Sleep w1, GetSyncStatus, Sleep w2,
             GetSyncStatus,
             Sleep (min (6750 + random td * (3 / 10) * 6750) (T - elapsed_at_sleep td))]
            @ snd (?loop ?h 10125 ts))"
    unfolding w l0 l1 l2 l3 by simp
  show "6750 \<le> 6750 + random td * (3 / 10) * 6750"
    using h jitter_bounds(1)[of "random td"] by simp
  show "6750 + random td * (3 / 10) * 6750 < 6750 * (13 / 10)"
    using h jitter_bounds(2)[of "random td"] by simp
qed

theorem polling_backoff_schedule_witness:
  "poll_iteration default_polling wait_200s 200000 2000 (Some ''h'') 6750 (quiet_tick 10925)
     = (Continue (Some ''h'') 10125, [GetSyncStatus, Sleep (15525 / 2)])
   \<and> (\<exists>w0 w1 w2.
         polling_waitForEmail default_polling wait_200s
             [quiet_tick 0, quiet_tick 2300, quiet_tick 5750, quiet_tick 10925]
           = (None,
              [GetSyncStatus, Sleep w0, GetSyncStatus, Sleep w1, GetSyncStatus, Sleep w2,
               GetSyncStatus, Sleep (15525 / 2)]))"
proof -
  let ?st = "\<lparr> emailCount = 0, emailsHash = ''h'' \<rparr>"
  note inst = polling_backoff_schedule[where t = "quiet_tick 10925" and st = "?st"
      and lastHash = "Some ''h''" and timeout = 200000 and S = default_polling
      and options = wait_200s and pollInterval = 2000 and currentBackoff = 6750
      and T = 200000 and ts = "[]"
      and ta = "quiet_tick 0" and sa = "?st" and tb = "quiet_tick 2300" and sb = "?st"
      and tc = "quiet_tick 5750" and sc = "?st" and td = "quiet_tick 10925"
      and sd = "?st"]
  show ?thesis
    using inst by (simp add: quiet_tick_def wait_200s_def default_polling_simps)
qed

text \<open>
  The formula of the specification, which lacks the bound \<open>maxBackoff\<close> on the jittered
  time, fails at the eighth turn of a quiet wait: the interval has reached 30000 ms, the
  code sleeps 30000 ms, the formula gives 34500 ms.
\<close>

theorem polling_sleep_counterexample:
  "last (snd (polling_waitForEmail default_polling wait_200s quiet_ticks)) = Sleep 30000
   \<and> spec_sleep 30000 (3 / 10) (1 / 2) (200000 - 4735700 / 64) = 34500
   \<and> last (snd (polling_waitForEmail default_polling wait_200s quiet_ticks))
       \<noteq> Sleep (spec_sleep 30000 (3 / 10) (1 / 2) (200000 - 4735700 / 64))"
  by code_simp

text \<open>
  C5, as the code has it. A wait whose timeout is zero, or has passed when the strategy
  tests it, fails with \<open>TimeoutError\<close>. The polling strategy does so before any fetch or
  sleep. The stream strategy has subscribed by then; unless subscribing or unsubscribing
  throws, it unsubscribes and rejects with \<open>TimeoutError\<close>, and the registry is as it was
  before the call when the callback is new to an inbox that is absent or has callbacks.
\<close>

theorem elapsed_timeout_rejects:
  "(nullish (opt_timeout options) 30000 \<le> elapsed_at_test t \<longrightarrow>
      polling_waitForEmail P options (t # ts) = (Some (Inl TimeoutError), []))
   \<and> (nullish (opt_timeout woptions) 30000 \<le> elapsed
        \<and> snd (subscribe can_open S address hash kp callback) = None
        \<and> snd (unsubscribe can_open (fst (subscribe can_open S address hash kp callback))
                 address callback) = None \<longrightarrow>
      sse_waitForEmail can_open S address hash kp woptions callback elapsed =
        (fst (unsubscribe can_open (fst (subscribe can_open S address hash kp callback))
                address callback),
         Rejected TimeoutError))
   \<and> (Map_get address (subscriptions S) = None
        \<or> (\<exists>sub. Map_get address (subscriptions S) = Some sub
              \<and> callback \<notin> set (callbacks sub) \<and> callbacks sub \<noteq> []) \<longrightarrow>
      subscriptions (fst (unsubscribe can_open
            (fst (subscribe can_open S address hash kp callback)) address callback))
        = subscriptions S)"
proof (intro conjI impI)
  assume "nullish (opt_timeout options) 30000 \<le> elapsed_at_test t"
  then show "polling_waitForEmail P options (t # ts) = (Some (Inl TimeoutError), [])"
    by (rule polling_timeout_elapsed)
next
  assume h: "nullish (opt_timeout woptions) 30000 \<le> elapsed
        \<and> snd (subscribe can_open S address hash kp callback) = None
        \<and> snd (unsubscribe can_open (fst (subscribe can_open S address hash kp callback))
                 address callback) = None"
  define S1 where "S1 = fst (subscribe can_open S address hash kp callback)"
  define S2 where "S2 = fst (unsubscribe can_open S1 address callback)"
  have s: "subscribe can_open S address hash kp callback = (S1, None)"
    using h by (simp add: S1_def prod_eq_iff)
  have u: "unsubscribe can_open S1 address callback = (S2, None)"
    using h by (simp add: S1_def S2_def prod_eq_iff)
  have "sse_waitForEmail can_open S address hash kp woptions callback elapsed
          = (S2, Rejected TimeoutError)"
    using h by (simp add: sse_waitForEmail_def Let_def s u)
  then show "sse_waitForEmail can_open S address hash kp woptions callback elapsed =
        (fst (unsubscribe can_open (fst (subscribe can_open S address hash kp callback))
                address callback),
         Rejected TimeoutError)"
    by (simp add: S1_def S2_def)
next
  assume "Map_get address (subscriptions S) = None
        \<or> (\<exists>sub. Map_get address (subscriptions S) = Some sub
              \<and> callback \<notin> set (callbacks sub) \<and> callbacks sub \<noteq> [])"
  then show "subscriptions (fst (unsubscribe can_open
            (fst (subscribe can_open S address hash kp callback)) address callback))
        = subscriptions S"
    by (rule wait_registry_restored)
qed

theorem elapsed_timeout_rejects_witness:
  "polling_waitForEmail default_polling zero_wait [quiet_tick 0] = (Some (Inl TimeoutError), [])
   \<and> snd (sse_waitForEmail (\<lambda>_. True) sample_sse ''a@gw'' ''h1'' sample_keypair zero_wait 7 0)
       = Rejected TimeoutError
   \<and> subscriptions (fst (sse_waitForEmail (\<lambda>_. True) sample_sse ''a@gw'' ''h1'' sample_keypair
                          zero_wait 7 0)) = subscriptions sample_sse"
proof -
  note inst = elapsed_timeout_rejects[where options = zero_wait and t = "quiet_tick 0"
      and P = default_polling and ts = "[]" and woptions = zero_wait and elapsed = 0
      and can_open = "\<lambda>_. True" and S = sample_sse and address = "''a@gw''"
      and hash = "''h1''" and kp = sample_keypair and callback = 7]
  have a: "nullish (opt_timeout zero_wait) 30000 \<le> elapsed_at_test (quiet_tick 0)"
    by code_simp
  have b: "nullish (opt_timeout zero_wait) 30000 \<le> (0::rat)"
    by code_simp
  have c: "snd (subscribe (\<lambda>_. True) sample_sse ''a@gw'' ''h1'' sample_keypair 7) = None"
    by code_simp
  have d: "snd (unsubscribe (\<lambda>_. True)
              (fst (subscribe (\<lambda>_. True) sample_sse ''a@gw'' ''h1'' sample_keypair 7))
              ''a@gw'' 7) = None"
    by code_simp
  have e: "Map_get ''a@gw'' (subscriptions sample_sse) = None"
    by code_simp
  from inst a b c d e show ?thesis by simp
qed

text \<open>
  The stream strategy does subscribe when the timeout is zero: the registry holds the
  inbox after \<open>subscribe\<close>, and the trace shows the connection opened and closed.
\<close>

theorem zero_timeout_subscribes_counterexample:
  "snd (sse_waitForEmail (\<lambda>_. True) sample_sse ''a@gw'' ''h1'' sample_keypair zero_wait 7 0)
     = Rejected TimeoutError
   \<and> map fst (subscriptions (fst (subscribe (\<lambda>_. True) sample_sse ''a@gw'' ''h1''
                                      sample_keypair 7))) = [''a@gw'']
   \<and> trace (fst (sse_waitForEmail (\<lambda>_. True) sample_sse ''a@gw'' ''h1'' sample_keypair
                    zero_wait 7 0))
       = [Opened ''http://gw/api/events?inboxes=h1'', Closed ''http://gw/api/events?inboxes=h1'']"
  by code_simp

text \<open>
  C6, as the code has it. When the reconnection attempts are used up,
  \<open>handleConnectionError\<close> disconnects and throws \<open>SSEError\<close> to its caller: the error
  handler of the connection, or \<open>connect\<close> when the connection could not be constructed.
  The state that remains is that of a plain disconnect, with nothing in it that a later
  operation could report. While attempts remain, the handler throws nothing and sets the
  reconnection timer.
\<close>

theorem exhaustion_thrown_in_handler:
  "(\<not> isClosing S \<and> maxReconnectAttempts S \<le> int (reconnectAttempts S) \<longrightarrow>
      es_onerror S = (disconnect S, Some SSEError))
   \<and> (\<not> isClosing S \<and> maxReconnectAttempts S \<le> int (reconnectAttempts S)
        \<and> subscriptions S \<noteq> [] \<and> inbox_hashes (subscriptions S) \<noteq> []
        \<and> \<not> can_open (url S @ ''/api/events?inboxes='' @ join '','' (inbox_hashes (subscriptions S))) \<longrightarrow>
      connect can_open S = (disconnect S, Some SSEError))
   \<and> (\<not> isClosing S \<and> int (reconnectAttempts S) < maxReconnectAttempts S \<longrightarrow>
      snd (es_onerror S) = None
      \<and> reconnectTimer (fst (es_onerror S))
          = Some (reconnectInterval S * sse_backoffMultiplier S ^ reconnectAttempts S))"
proof (intro conjI impI)
  assume "\<not> isClosing S \<and> maxReconnectAttempts S \<le> int (reconnectAttempts S)"
  then show "es_onerror S = (disconnect S, Some SSEError)"
    by (simp add: es_onerror_def handleConnectionError_exhausted)
next
  assume h: "\<not> isClosing S \<and> maxReconnectAttempts S \<le> int (reconnectAttempts S)
        \<and> subscriptions S \<noteq> [] \<and> inbox_hashes (subscriptions S) \<noteq> []
        \<and> \<not> can_open (url S @ ''/api/events?inboxes='' @ join '','' (inbox_hashes (subscriptions S)))"
  then have "join '','' (inbox_hashes (subscriptions S)) \<noteq> []"
    by (simp add: join_inbox_hashes_nonempty)
  with h show "connect can_open S = (disconnect S, Some SSEError)"
    by (simp add: connect_def Let_def handleConnectionError_exhausted)
next
  assume h: "\<not> isClosing S \<and> int (reconnectAttempts S) < maxReconnectAttempts S"
  then show "snd (es_onerror S) = None"
    by (simp add: es_onerror_def handleConnectionError_retry)
  from h show "reconnectTimer (fst (es_onerror S))
          = Some (reconnectInterval S * sse_backoffMultiplier S ^ reconnectAttempts S)"
    by (simp add: es_onerror_def handleConnectionError_retry)
qed

theorem exhaustion_thrown_in_handler_witness:
  "es_onerror no_retry_sse = (disconnect no_retry_sse, Some SSEError)"
proof -
  have "\<not> isClosing no_retry_sse \<and> maxReconnectAttempts no_retry_sse \<le> int (reconnectAttempts no_retry_sse)"
    by code_simp
  with exhaustion_thrown_in_handler[of no_retry_sse "\<lambda>_. True"] show ?thesis by blast
qed

text \<open>
  The claim that the failure is not thrown inside the event handler fails for a strategy
  with \<open>maxReconnectAttempts = 0\<close> and one inbox subscribed: the error handler of its
  connection throws \<open>SSEError\<close>.
\<close>

theorem exhaustion_counterexample:
  "snd (es_onerror no_retry_sse) = Some SSEError
   \<and> eventSource (fst (es_onerror no_retry_sse)) = None
   \<and> subscriptions (fst (es_onerror no_retry_sse)) \<noteq> []"
  by code_simp

text \<open>
  C7, as the code has it. Removing the last callback of an inbox removes the inbox from the
  registry. When the registry is then empty, the connection is closed and none is opened.
  Otherwise, in a strategy that is not closing, the connection is closed and opened again
  with the routing hashes that remain, the empty ones left out, joined by commas in the
  order of registration, provided at least one is left and the connection can be opened:
  with two inboxes, the new address holds only the hash of the other one. In the same way
  the connection that \<open>subscribe\<close> opens carries the hashes of the registry it leaves.
\<close>

theorem stream_follows_registry:
  "(Map_get address (subscriptions S) = Some sub \<and> Set_delete callback (callbacks sub) = []
      \<and> Map_delete address (subscriptions S) = [] \<longrightarrow>
      unsubscribe can_open S address callback = (disconnect (S \<lparr> subscriptions := [] \<rparr>), None)
      \<and> eventSource (fst (unsubscribe can_open S address callback)) = None)
   \<and> (\<not> isClosing S
        \<and> Map_get address (subscriptions S) = Some sub \<and> Set_delete callback (callbacks sub) = []
        \<and> Map_delete address (subscriptions S) = remaining \<and> inbox_hashes remaining \<noteq> []
        \<and> can_open (url S @ ''/api/events?inboxes='' @ join '','' (inbox_hashes remaining)) \<longrightarrow>
      subscriptions (fst (unsubscribe can_open S address callback)) = remaining
      \<and> eventSource (fst (unsubscribe can_open S address callback))
          = Some \<lparr> es_url = url S @ ''/api/events?inboxes='' @ join '','' (inbox_hashes remaining),
                    readyState = 0 \<rparr>
      \<and> trace (fst (unsubscribe can_open S address callback))
          = trace (disconnect S)
            @ [Opened (url S @ ''/api/events?inboxes='' @ join '','' (inbox_hashes remaining))]
      \<and> snd (unsubscribe can_open S address callback) = None)
   \<and> (\<not> isClosing S
        \<and> subscriptions S = [(address, sub), (address', sub')] \<and> address' \<noteq> address
        \<and> Set_delete callback (callbacks sub) = [] \<and> inboxHash sub' \<noteq> []
        \<and> can_open (url S @ ''/api/events?inboxes='' @ inboxHash sub') \<longrightarrow>
      subscriptions (fst (unsubscribe can_open S address callback)) = [(address', sub')]
      \<and> eventSource (fst (unsubscribe can_open S address callback))
          = Some \<lparr> es_url = url S @ ''/api/events?inboxes='' @ inboxHash sub', readyState = 0 \<rparr>)
   \<and> (\<not> isClosing S
        \<and> subscriptions (fst (subscribe can_open S address hash kp callback)) = registry
        \<and> inbox_hashes registry \<noteq> []
        \<and> can_open (url S @ ''/api/events?inboxes='' @ join '','' (inbox_hashes registry)) \<longrightarrow>
      eventSource (fst (subscribe can_open S address hash kp callback))
        = Some \<lparr> es_url = url S @ ''/api/events?inboxes='' @ join '','' (inbox_hashes registry),
                  readyState = 0 \<rparr>)"
proof (intro conjI impI)
  assume h: "Map_get address (subscriptions S) = Some sub \<and> Set_delete callback (callbacks sub) = []
      \<and> Map_delete address (subscriptions S) = []"
  then show u: "unsubscribe can_open S address callback = (disconnect (S \<lparr> subscriptions := [] \<rparr>), None)"
    using unsubscribe_last_callback[of address S sub callback can_open] by simp
  show "eventSource (fst (unsubscribe can_open S address callback)) = None"
    unfolding u by simp
next
  assume h: "\<not> isClosing S
        \<and> Map_get address (subscriptions S) = Some sub \<and> Set_delete callback (callbacks sub) = []
        \<and> Map_delete address (subscriptions S) = remaining \<and> inbox_hashes remaining \<noteq> []
        \<and> can_open (url S @ ''/api/events?inboxes='' @ join '','' (inbox_hashes remaining))"
  let ?S1 = "disconnect (S \<lparr> subscriptions := remaining \<rparr>)"
  let ?u = "url S @ ''/api/events?inboxes='' @ join '','' (inbox_hashes remaining)"
  have ne: "remaining \<noteq> []" using h by (auto simp: inbox_hashes_def)
  have u: "unsubscribe can_open S address callback = connect can_open ?S1"
    using h ne unsubscribe_last_callback[of address S sub callback can_open]
    by (simp add: reconnect_def)
  have c: "connect can_open ?S1 =
      (?S1 \<lparr> eventSource := Some \<lparr> es_url = ?u, readyState = 0 \<rparr>,
             trace := trace ?S1 @ [Opened ?u] \<rparr>, None)"
    using h connect_opens[of ?S1 can_open] by simp
  show "subscriptions (fst (unsubscribe can_open S address callback)) = remaining"
    unfolding u c by simp
  show "eventSource (fst (unsubscribe can_open S address callback))
          = Some \<lparr> es_url = ?u, readyState = 0 \<rparr>"
    unfolding u c by simp
  show "trace (fst (unsubscribe can_open S address callback)) = trace (disconnect S) @ [Opened ?u]"
    unfolding u c by (simp add: trace_disconnect_subscriptions)
  show "snd (unsubscribe can_open S address callback) = None"
    unfolding u c by simp
next
  assume h: "\<not> isClosing S
        \<and> subscriptions S = [(address, sub), (address', sub')] \<and> address' \<noteq> address
        \<and> Set_delete callback (callbacks sub) = [] \<and> inboxHash sub' \<noteq> []
        \<and> can_open (url S @ ''/api/events?inboxes='' @ inboxHash sub')"
  let ?S1 = "disconnect (S \<lparr> subscriptions := [(address', sub')] \<rparr>)"
  let ?u = "url S @ ''/api/events?inboxes='' @ inboxHash sub'"
  have g: "Map_get address (subscriptions S) = Some sub"
    and d: "Map_delete address (subscriptions S) = [(address', sub')]"
    using h by (simp_all add: Map_get_def Map_delete_def)
  have ih: "inbox_hashes [(address', sub')] = [inboxHash sub']"
    using h by (simp add: inbox_hashes_def)
  have u: "unsubscribe can_open S address callback = connect can_open ?S1"
    using h g d unsubscribe_last_callback[of address S sub callback can_open]
    by (simp add: reconnect_def)
  have c: "connect can_open ?S1 =
      (?S1 \<lparr> eventSource := Some \<lparr> es_url = ?u, readyState = 0 \<rparr>,
             trace := trace ?S1 @ [Opened ?u] \<rparr>, None)"
    using h connect_opens[of ?S1 can_open] by (simp add: ih)
  show "subscriptions (fst (unsubscribe can_open S address callback)) = [(address', sub')]"
    unfolding u c by simp
  show "eventSource (fst (unsubscribe can_open S address callback))
          = Some \<lparr> es_url = ?u, readyState = 0 \<rparr>"
    unfolding u c by simp
next
  assume h: "\<not> isClosing S
        \<and> subscriptions (fst (subscribe can_open S address hash kp callback)) = registry
        \<and> inbox_hashes registry \<noteq> []
        \<and> can_open (url S @ ''/api/events?inboxes='' @ join '','' (inbox_hashes registry))"
  let ?u = "url S @ ''/api/events?inboxes='' @ join '','' (inbox_hashes registry)"
  from subscribe_cases[where S = S and can_open = can_open and address = address
      and hash = hash and kp = kp and callback = callback]
  obtain S1 where p: "isClosing S1 = isClosing S" "url S1 = url S"
    and s: "subscribe can_open S address hash kp callback = connect can_open S1
            \<or> subscribe can_open S address hash kp callback = connect can_open (disconnect S1)"
    by blast
  have r: "subscriptions S1 = registry"
    using h s by auto
  have c1: "connect can_open S1 =
      (S1 \<lparr> eventSource := Some \<lparr> es_url = ?u, readyState = 0 \<rparr>,
            trace := trace S1 @ [Opened ?u] \<rparr>, None)"
    using h r p connect_opens[of S1 can_open] by simp
  have c2: "connect can_open (disconnect S1) =
      ((disconnect S1) \<lparr> eventSource := Some \<lparr> es_url = ?u, readyState = 0 \<rparr>,
            trace := trace (disconnect S1) @ [Opened ?u] \<rparr>, None)"
    using h r p connect_opens[of "disconnect S1" can_open] by simp
  show "eventSource (fst (subscribe can_open S address hash kp callback))
        = Some \<lparr> es_url = ?u, readyState = 0 \<rparr>"
    using s c1 c2 by auto
qed

theorem stream_follows_registry_witness:
  "eventSource (fst (unsubscribe (\<lambda>_. True) two_live_inboxes ''a@gw'' 11))
     = Some \<lparr> es_url = ''http://gw/api/events?inboxes=h2'', readyState = 0 \<rparr>
   \<and> eventSource (fst (unsubscribe (\<lambda>_. True)
          (fst (unsubscribe (\<lambda>_. True) two_live_inboxes ''a@gw'' 11)) ''b@gw'' 12)) = None"
proof -
  let ?a = "\<lparr> emailAddress = ''a@gw'', inboxHash = ''h1'', keypair = sample_keypair,
              callbacks = [11] \<rparr>"
  let ?b = "\<lparr> emailAddress = ''b@gw'', inboxHash = ''h2'', keypair = sample_keypair,
              callbacks = [12] \<rparr>"
  let ?S1 = "fst (unsubscribe (\<lambda>_. True) two_live_inboxes ''a@gw'' 11)"
  note first = stream_follows_registry[where S = two_live_inboxes and can_open = "\<lambda>_. True"
      and address = "''a@gw''" and sub = ?a and address' = "''b@gw''" and sub' = ?b
      and callback = 11]
  have one: "subscriptions ?S1 = [(''b@gw'', ?b)]"
    and es: "eventSource ?S1 = Some \<lparr> es_url = ''http://gw/api/events?inboxes=h2'', readyState = 0 \<rparr>"
    using first by (simp_all add: two_live_inboxes_fields Set_delete_def)
  note second = stream_follows_registry[where S = ?S1 and can_open = "\<lambda>_. True"
      and address = "''b@gw''" and sub = ?b and callback = 12]
  have "eventSource (fst (unsubscribe (\<lambda>_. True) ?S1 ''b@gw'' 12)) = None"
    using second by (simp add: one Map_get_def Map_delete_def Set_delete_def)
  with es show ?thesis by simp
qed

text \<open>
  The claim does not hold for every registry. With two inboxes registered, the second
  under an empty routing hash, removing the first leaves the second in the registry, and
  yet no connection is opened and no reconnection is scheduled.
\<close>

theorem stream_registry_counterexample:
  "map fst (subscriptions two_inboxes) = [''a@gw'', ''b@gw'']
   \<and> map fst (subscriptions (fst (unsubscribe (\<lambda>_. True) two_inboxes ''a@gw'' 11))) = [''b@gw'']
   \<and> eventSource (fst (unsubscribe (\<lambda>_. True) two_inboxes ''a@gw'' 11)) = None
   \<and> reconnectTimer (fst (unsubscribe (\<lambda>_. True) two_inboxes ''a@gw'' 11)) = None"
  by code_simp

text \<open>
  C8. While the polling wait is running, a snapshot fetch answered with status 404 ends the
  wait at once: the result is \<open>InboxNotFoundError\<close> (or the \<open>EmailNotFoundError\<close> that the
  transport has already made of the response), the only action of the turn is the fetch,
  and the turns that would follow are never run.
\<close>

theorem polling_not_found_propagates:
  assumes "elapsed_at_test t < timeout"
    and "status r = 404"
    and "sync t = Inl (handleError (Some r)) \<or> sync t = Inl (ApiError 404)"
  shows "\<exists>e. is_not_found e
           \<and> poll_loop S options timeout pollInterval lastHash currentBackoff (t # ts)
               = (Some (Inl e), [GetSyncStatus])"
proof -
  from assms(3) obtain e0 where s: "sync t = Inl e0" and nf: "is_not_found (polling_catch e0)"
    using polling_catch_handleError[OF assms(2)] by auto
  have "poll_loop S options timeout pollInterval lastHash currentBackoff (t # ts)
          = (Some (Inl (polling_catch e0)), [GetSyncStatus])"
    using assms(1) by (simp add: poll_iteration_sync_error[OF s])
  with nf show ?thesis by blast
qed

theorem polling_not_found_propagates_witness:
  "\<exists>e. is_not_found e
     \<and> poll_loop default_polling wait_200s 200000 2000 (Some ''h'') 3000
           [quiet_tick 2300
              \<lparr> sync := Inl (handleError (Some \<lparr> status = 404, message = ''Inbox not found'' \<rparr>)) \<rparr>,
            quiet_tick 5750]
         = (Some (Inl e), [GetSyncStatus])"
proof -
  let ?r = "\<lparr> status = 404, message = ''Inbox not found'' \<rparr>"
  let ?t = "quiet_tick 2300 \<lparr> sync := Inl (handleError (Some ?r)) \<rparr>"
  have "elapsed_at_test ?t < 200000" and "status ?r = 404"
    and "sync ?t = Inl (handleError (Some ?r)) \<or> sync ?t = Inl (ApiError 404)"
    by (simp_all add: quiet_tick_def)
  then show ?thesis
    by (rule polling_not_found_propagates)
qed




text \<open>
  C10. For every byte array \<open>b\<close>, \<open>fromBase64Url (toBase64Url b)\<close> is \<open>b\<close>, and
  \<open>toBase64Url b\<close> holds none of the characters \<open>+\<close>, \<open>/\<close> and \<open>=\<close>.
\<close>

theorem base64url_roundtrip:
  "fromBase64Url (toBase64Url b) = b
   \<and> CHR ''+'' \<notin> set (toBase64Url b)
   \<and> CHR ''/'' \<notin> set (toBase64Url b)
   \<and> CHR ''='' \<notin> set (toBase64Url b)"
proof -
  have "fromBase64Url (toBase64Url b) = b"
    by (simp only: toBase64Url_eq fromBase64Url_urlchars[OF sextets_lt] unsextets_sextets)
  moreover have "\<forall>c \<in> set (toBase64Url b). c \<noteq> CHR ''+'' \<and> c \<noteq> CHR ''/''"
    by (simp add: toBase64Url_eq urlchar_clean)
  then have "CHR ''+'' \<notin> set (toBase64Url b)" "CHR ''/'' \<notin> set (toBase64Url b)"
    by blast+
  moreover have "CHR ''='' \<notin> set (toBase64Url b)"
    by (simp add: toBase64Url_def Let_def remove_char_def)
  ultimately show ?thesis by simp
qed

end
